theory Spec2Isabelle
  imports Complex_Main
begin

section \<open>Time and configuration (src/src/config.py)\<close>

text \<open>
  A point in time (\<^verbatim>\<open>datetime\<close>) and a duration (\<^verbatim>\<open>timedelta\<close>, the argument of
  \<^verbatim>\<open>time.sleep\<close>) are integers counting microseconds, the resolution of \<^verbatim>\<open>datetime\<close>.
\<close>

type_synonym timestamp = int

definition seconds :: "int \<Rightarrow> int" where
  "seconds n = n * 1000000"

definition hours :: "int \<Rightarrow> int" where
  "hours n = seconds (n * 3600)"

text \<open>
  Class \<^verbatim>\<open>Config\<close>. The three fields of the record are the values read from the
  environment; the other attributes are literals of the class.
\<close>

record config =
  API_KEY :: "string option"
  MAX_CALLS_PER_DAY :: int
  CONSECUTIVE_404_LIMIT :: int

definition RATE_LIMIT_WINDOW_HOURS :: int where
  "RATE_LIMIT_WINDOW_HOURS = 24"

definition REQUEST_DELAY_SECONDS :: int where
  "REQUEST_DELAY_SECONDS = 1500000"

definition RETRY_DELAY_SECONDS :: int where
  "RETRY_DELAY_SECONDS = 300"

definition RETRY_MAX_ATTEMPTS :: nat where
  "RETRY_MAX_ATTEMPTS = 3"

definition RATE_LIMIT_SLEEP_SECONDS :: int where
  "RATE_LIMIT_SLEEP_SECONDS = 3600"

definition default_config :: "string \<Rightarrow> config" where
  "default_config key =
     \<lparr>API_KEY = Some key, MAX_CALLS_PER_DAY = 295, CONSECUTIVE_404_LIMIT = 1000\<rparr>"

text \<open>
  The exceptions that arise. A \<^verbatim>\<open>ValueError\<close> carries the message the source gives it.
  An \<^verbatim>\<open>IntegrityError\<close> carries the column whose constraint fails, as the schema names
  it; the wording of SQLite's own message is not modelled. \<^verbatim>\<open>OverflowError\<close> is raised
  when a Python integer outside the signed 64-bit range is bound to a statement.
\<close>

datatype exn = ValueError string | IntegrityError string | OverflowError

text \<open>\<^verbatim>\<open>Config.validate\<close>: \<^verbatim>\<open>not cls.API_KEY\<close> holds for \<^verbatim>\<open>None\<close> and for the empty string.\<close>

definition validate :: "config \<Rightarrow> exn option" where
  "validate cfg =
     (if API_KEY cfg = None \<or> API_KEY cfg = Some [] then
        Some (ValueError ''GOLFCOURSEAPI_API_KEY not found in environment variables'')
      else if MAX_CALLS_PER_DAY cfg \<le> 0 then
        Some (ValueError ''MAX_CALLS_PER_DAY must be greater than 0'')
      else None)"

section \<open>The payload of a course\<close>

text \<open>
  The decoded JSON body of a 200 response, at the shape \<^verbatim>\<open>save_course\<close> reads it with
  \<^verbatim>\<open>dict.get\<close>. A key read with \<^verbatim>\<open>get(key)\<close> is an option (\<open>None\<close> when the key is
  absent or null). A key read with a default that differs from \<^verbatim>\<open>None\<close> distinguishes the
  absent key (the default applies) from the null value. A number is a JSON integer, of
  any size, or a finite float. Payloads of another shape (a list where an object is
  expected, a string where a number is) are outside the model.
\<close>

datatype 'a jfield = JAbsent | JNull | JVal 'a

datatype jnum = JInt int | JFloat rat

text \<open>
  Binding a value to a statement: \<^verbatim>\<open>None\<close>, a float and an integer within the signed
  64-bit range bind; any other integer makes \<^verbatim>\<open>execute\<close> raise \<^verbatim>\<open>OverflowError\<close>
  before the statement runs.
\<close>

definition int64 :: "int \<Rightarrow> bool" where
  "int64 i \<longleftrightarrow> - (2 ^ 63) \<le> i \<and> i < 2 ^ 63"

fun binds :: "jnum option \<Rightarrow> bool" where
  "binds None = True"
| "binds (Some (JFloat x)) = True"
| "binds (Some (JInt i)) = int64 i"

record hole_json =
  par :: "jnum option"
  yardage :: "jnum option"
  handicap :: "jnum option"

record tee_ratings =
  course_rating :: "jnum option"
  slope_rating :: "jnum option"
  bogey_rating :: "jnum option"
  total_yards :: "jnum option"
  total_meters :: "jnum option"
  number_of_holes :: "jnum option"
  par_total :: "jnum option"
  front_course_rating :: "jnum option"
  front_slope_rating :: "jnum option"
  front_bogey_rating :: "jnum option"
  back_course_rating :: "jnum option"
  back_slope_rating :: "jnum option"
  back_bogey_rating :: "jnum option"

record tee_json =
  j_tee_name :: "string option"
  j_ratings :: tee_ratings
  j_holes :: "hole_json list"

record location_json =
  address :: "string option"
  city :: "string option"
  state :: "string option"
  country :: "string option"
  latitude :: "jnum option"
  longitude :: "jnum option"

definition ratings_bind :: "tee_ratings \<Rightarrow> bool" where
  "ratings_bind r \<longleftrightarrow>
     binds (course_rating r) \<and> binds (slope_rating r) \<and> binds (bogey_rating r)
     \<and> binds (total_yards r) \<and> binds (total_meters r) \<and> binds (number_of_holes r)
     \<and> binds (par_total r) \<and> binds (front_course_rating r)
     \<and> binds (front_slope_rating r) \<and> binds (front_bogey_rating r)
     \<and> binds (back_course_rating r) \<and> binds (back_slope_rating r)
     \<and> binds (back_bogey_rating r)"

definition hole_binds :: "hole_json \<Rightarrow> bool" where
  "hole_binds h \<longleftrightarrow> binds (par h) \<and> binds (yardage h) \<and> binds (handicap h)"

definition location_binds :: "location_json \<Rightarrow> bool" where
  "location_binds l \<longleftrightarrow> binds (latitude l) \<and> binds (longitude l)"

text \<open>
  The id of the course is an integer, as the ids of the API are. \<open>j_location\<close> is \<open>None\<close> when \<^verbatim>\<open>course.get('location', {})\<close> is falsy (absent or
  empty); \<open>j_tees_male\<close> and \<open>j_tees_female\<close> are \<^verbatim>\<open>tees_data.get(gender, [])\<close>.
\<close>

record course_json =
  j_id :: "int option"
  j_club_name :: "string jfield"
  j_course_name :: "string jfield"
  j_location :: "location_json option"
  j_tees_male :: "tee_json list"
  j_tees_female :: "tee_json list"

text \<open>
  The body itself: the value under the key \<^verbatim>\<open>'course'\<close> (\<open>None\<close> when the key is
  absent) and whether the object has any other key. An object with no key at all is the
  empty dict, which Python takes as false.
\<close>

record course_data =
  j_course :: "course_json option"
  j_other_keys :: bool

definition empty_course :: course_json where
  "empty_course =
     \<lparr>j_id = None, j_club_name = JAbsent, j_course_name = JAbsent, j_location = None,
      j_tees_male = [], j_tees_female = []\<rparr>"

text \<open>\<^verbatim>\<open>if course_data:\<close> on the \<^verbatim>\<open>Optional[Dict]\<close> that \<^verbatim>\<open>fetch_course\<close> returns.\<close>

definition truthy :: "course_data option \<Rightarrow> bool" where
  "truthy r = (case r of None \<Rightarrow> False | Some cd \<Rightarrow> j_course cd \<noteq> None \<or> j_other_keys cd)"

section \<open>The store (src/src/database.py)\<close>

text \<open>
  The tables of \<^verbatim>\<open>_create_tables\<close>. The singleton row of \<^verbatim>\<open>scrape_metadata\<close> is a
  record; \<^verbatim>\<open>api_calls\<close> is the list of its timestamps, newest first;
  \<^verbatim>\<open>scrape_attempts\<close> and \<^verbatim>\<open>courses\<close> are maps from their primary key, and
  \<^verbatim>\<open>locations\<close> from its unique \<^verbatim>\<open>course_id\<close>; \<^verbatim>\<open>tees\<close> and \<^verbatim>\<open>holes\<close> are
  lists of rows in insertion order, and \<open>tees_seq\<close> is the AUTOINCREMENT counter that
  gives \<^verbatim>\<open>cursor.lastrowid\<close>. The columns that SQLite fills by default with its own
  \<^verbatim>\<open>CURRENT_TIMESTAMP\<close> (\<^verbatim>\<open>created_at\<close>, and \<^verbatim>\<open>attempted_at\<close> of
  \<^verbatim>\<open>scrape_attempts\<close>, which the insert does not name) and the row ids of
  \<^verbatim>\<open>api_calls\<close>, \<^verbatim>\<open>locations\<close> and \<^verbatim>\<open>holes\<close> are never read and are left out.
  The ids and counters that the engine itself binds (the cursor, the counters of the
  metadata row, the AUTOINCREMENT counter) start from stored values and move by one; they
  are taken to stay within the signed 64-bit range. The integers of a payload are not.
\<close>

record scrape_metadata_row =
  last_scraped_id :: int
  consecutive_404s :: int
  total_courses_scraped :: int
  scraping_complete :: bool
  last_updated :: timestamp

record attempt_row =
  status_code :: int
  success :: bool

record course_row =
  club_name :: string
  course_name :: string

record tee_row =
  tee_id :: int
  tee_course_id :: int
  gender :: string
  tee_name :: string
  ratings :: tee_ratings

record hole_row =
  hole_tee_id :: int
  hole_number :: int
  hole :: hole_json

record tables =
  scrape_metadata :: scrape_metadata_row
  api_calls :: "timestamp list"
  scrape_attempts :: "int \<rightharpoonup> attempt_row"
  courses :: "int \<rightharpoonup> course_row"
  locations :: "int \<rightharpoonup> location_json"
  tees :: "tee_row list"
  tees_seq :: int
  holes :: "hole_row list"

text \<open>
  What \<^verbatim>\<open>_create_tables\<close> leaves in a new file: empty tables and the metadata row
  \<^verbatim>\<open>(1, 0, now)\<close> with the column defaults.
\<close>

definition fresh_tables :: "timestamp \<Rightarrow> tables" where
  "fresh_tables t =
     \<lparr>scrape_metadata = \<lparr>last_scraped_id = 0, consecutive_404s = 0,
        total_courses_scraped = 0, scraping_complete = False, last_updated = t\<rparr>,
      api_calls = [], scrape_attempts = Map.empty, courses = Map.empty,
      locations = Map.empty, tees = [], tees_seq = 0, holes = []\<rparr>"

text \<open>
  Everything the program acts on: the store, the wall clock read by \<^verbatim>\<open>datetime.now()\<close>
  and advanced by \<^verbatim>\<open>time.sleep\<close>, the trace of the ids requested with
  \<^verbatim>\<open>session.get\<close> (newest first), and whether the connection is open. Time passes only
  in \<^verbatim>\<open>time.sleep\<close>: computing and the network take none.
\<close>

record world =
  db :: tables
  clock :: timestamp
  requests :: "int list"
  conn_open :: bool

definition sleep :: "int \<Rightarrow> world \<Rightarrow> world" where
  "sleep d w = w\<lparr>clock := clock w + d\<rparr>"

text \<open>
  The context manager \<^verbatim>\<open>transaction\<close>: the body works on the tables and either ends
  (commit: its tables are kept) or raises (rollback: the tables at entry come back, and
  the exception goes on to the caller). Every write of the class runs inside it, so
  nothing is pending when a method starts.
\<close>

definition transaction :: "(tables \<Rightarrow> exn option \<times> tables) \<Rightarrow> world \<Rightarrow> exn option \<times> world" where
  "transaction body w =
     (case body (db w) of
        (None, t') \<Rightarrow> (None, w\<lparr>db := t'\<rparr>)
      | (Some e, t') \<Rightarrow> (Some e, w\<lparr>db := db w\<rparr>))"

definition get_scrape_metadata :: "world \<Rightarrow> scrape_metadata_row" where
  "get_scrape_metadata w = scrape_metadata (db w)"

text \<open>
  The keyword arguments of \<^verbatim>\<open>update_scrape_metadata\<close>: a dict whose keys are column
  names, so each column is named at most once; \<open>None\<close> for a column not named.
\<close>

record metadata_kwargs =
  kw_last_scraped_id :: "int option"
  kw_consecutive_404s :: "int option"
  kw_total_courses_scraped :: "int option"
  kw_scraping_complete :: "bool option"

definition no_kwargs :: metadata_kwargs where
  "no_kwargs = \<lparr>kw_last_scraped_id = None, kw_consecutive_404s = None,
     kw_total_courses_scraped = None, kw_scraping_complete = None\<rparr>"

definition set_clauses :: "metadata_kwargs \<Rightarrow> timestamp \<Rightarrow> scrape_metadata_row \<Rightarrow> scrape_metadata_row" where
  "set_clauses kwargs t row =
     \<lparr>last_scraped_id = (case kw_last_scraped_id kwargs of Some v \<Rightarrow> v | None \<Rightarrow> last_scraped_id row),
      consecutive_404s = (case kw_consecutive_404s kwargs of Some v \<Rightarrow> v | None \<Rightarrow> consecutive_404s row),
      total_courses_scraped =
        (case kw_total_courses_scraped kwargs of Some v \<Rightarrow> v | None \<Rightarrow> total_courses_scraped row),
      scraping_complete =
        (case kw_scraping_complete kwargs of Some v \<Rightarrow> v | None \<Rightarrow> scraping_complete row),
      last_updated = t\<rparr>"

definition update_scrape_metadata :: "metadata_kwargs \<Rightarrow> world \<Rightarrow> world" where
  "update_scrape_metadata kwargs w =
     snd (transaction
       (\<lambda>t. (None, t\<lparr>scrape_metadata := set_clauses kwargs (clock w) (scrape_metadata t)\<rparr>)) w)"

definition record_api_call :: "world \<Rightarrow> world" where
  "record_api_call w =
     snd (transaction (\<lambda>t. (None, t\<lparr>api_calls := clock w # api_calls t\<rparr>)) w)"

definition window_start :: "world \<Rightarrow> timestamp" where
  "window_start w = clock w - hours RATE_LIMIT_WINDOW_HOURS"

definition get_api_calls_in_window :: "world \<Rightarrow> int" where
  "get_api_calls_in_window w =
     int (length (filter (\<lambda>ts. ts > window_start w) (api_calls (db w))))"

definition cleanup_old_api_calls :: "world \<Rightarrow> world" where
  "cleanup_old_api_calls w =
     snd (transaction
       (\<lambda>t. (None, t\<lparr>api_calls := filter (\<lambda>ts. \<not> ts \<le> window_start w) (api_calls t)\<rparr>)) w)"

definition get_oldest_api_call_in_window :: "world \<Rightarrow> timestamp option" where
  "get_oldest_api_call_in_window w =
     (case filter (\<lambda>ts. ts > window_start w) (api_calls (db w)) of
        [] \<Rightarrow> None
      | x # xs \<Rightarrow> Some (min_list (x # xs)))"

definition is_course_already_attempted :: "int \<Rightarrow> world \<Rightarrow> bool" where
  "is_course_already_attempted course_id w = (scrape_attempts (db w) course_id \<noteq> None)"

definition record_scrape_attempt :: "int \<Rightarrow> int \<Rightarrow> bool \<Rightarrow> world \<Rightarrow> world" where
  "record_scrape_attempt course_id sc ok w =
     snd (transaction
       (\<lambda>t. (None, t\<lparr>scrape_attempts := (scrape_attempts t)
          (course_id \<mapsto> \<lparr>status_code = sc, success = ok\<rparr>)\<rparr>)) w)"

definition close :: "world \<Rightarrow> world" where
  "close w = w\<lparr>conn_open := False\<rparr>"

definition Database :: "world \<Rightarrow> world" where
  "Database w = w\<lparr>conn_open := True\<rparr>"

subsection \<open>\<^verbatim>\<open>save_course\<close>\<close>

text \<open>
  The statements of \<^verbatim>\<open>save_course\<close>, in order, on the working tables. A statement that
  raises returns the exception together with the tables as they are at that point, rows
  already inserted included; \<open>transaction\<close> then decides what is kept. In each
  \<^verbatim>\<open>execute\<close> the parameters are bound first, so an integer that does not bind raises
  before any constraint of the table is looked at.

  The inner loop \<^verbatim>\<open>for hole_num, hole in enumerate(holes, start=1)\<close>: the insert fails
  on \<^verbatim>\<open>CHECK(hole_number BETWEEN 1 AND 18)\<close>.
\<close>

fun insert_holes :: "int \<Rightarrow> int \<Rightarrow> hole_json list \<Rightarrow> tables \<Rightarrow> exn option \<times> tables" where
  "insert_holes tid hole_num [] t = (None, t)"
| "insert_holes tid hole_num (h # hs) t =
     (if \<not> hole_binds h then (Some OverflowError, t)
      else if 1 \<le> hole_num \<and> hole_num \<le> 18 then
        insert_holes tid (hole_num + 1) hs
          (t\<lparr>holes := holes t @ [\<lparr>hole_tee_id = tid, hole_number = hole_num, hole = h\<rparr>]\<rparr>)
      else (Some (IntegrityError ''holes.hole_number''), t))"

text \<open>
  The loop \<^verbatim>\<open>for tee in tees_list\<close>: the insert fails on \<^verbatim>\<open>tee_name TEXT NOT NULL\<close>
  and on \<^verbatim>\<open>CHECK(gender IN ('male', 'female'))\<close>; \<^verbatim>\<open>cursor.lastrowid\<close> is the new
  value of the AUTOINCREMENT counter.
\<close>

fun insert_tees :: "int \<Rightarrow> string \<Rightarrow> tee_json list \<Rightarrow> tables \<Rightarrow> exn option \<times> tables" where
  "insert_tees cid g [] t = (None, t)"
| "insert_tees cid g (tee # rest) t =
     (if \<not> ratings_bind (j_ratings tee) then (Some OverflowError, t)
      else case j_tee_name tee of
        None \<Rightarrow> (Some (IntegrityError ''tees.tee_name''), t)
      | Some name \<Rightarrow>
          if g \<in> {''male'', ''female''} then
            let tid = tees_seq t + 1;
                t1 = t\<lparr>tees := tees t @ [\<lparr>tee_id = tid, tee_course_id = cid, gender = g,
                                            tee_name = name, ratings = j_ratings tee\<rparr>],
                       tees_seq := tid\<rparr>
            in case insert_holes tid 1 (j_holes tee) t1 of
                 (Some e, t2) \<Rightarrow> (Some e, t2)
               | (None, t2) \<Rightarrow> insert_tees cid g rest t2
          else (Some (IntegrityError ''tees.gender''), t))"

text \<open>The loop \<^verbatim>\<open>for gender in ['male', 'female']\<close> over \<^verbatim>\<open>tees_data.get(gender, [])\<close>.\<close>

fun insert_genders :: "int \<Rightarrow> (string \<times> tee_json list) list \<Rightarrow> tables \<Rightarrow> exn option \<times> tables" where
  "insert_genders cid [] t = (None, t)"
| "insert_genders cid ((g, tees_list) # gs) t =
     (case insert_tees cid g tees_list t of
        (Some e, t1) \<Rightarrow> (Some e, t1)
      | (None, t1) \<Rightarrow> insert_genders cid gs t1)"

text \<open>\<^verbatim>\<open>course.get(key, '')\<close> bound to a \<^verbatim>\<open>TEXT NOT NULL\<close> column.\<close>

fun not_null_text :: "string jfield \<Rightarrow> string option" where
  "not_null_text JAbsent = Some []"
| "not_null_text JNull = None"
| "not_null_text (JVal s) = Some s"

text \<open>
  \<^verbatim>\<open>INSERT OR REPLACE INTO courses\<close>: the id is bound first, then the two names, each
  \<^verbatim>\<open>TEXT NOT NULL\<close>, are checked in the order of the columns.
\<close>

definition insert_course :: "int \<Rightarrow> course_json \<Rightarrow> tables \<Rightarrow> exn option \<times> tables" where
  "insert_course cid c t =
     (if \<not> int64 cid then (Some OverflowError, t)
      else case not_null_text (j_club_name c) of
        None \<Rightarrow> (Some (IntegrityError ''courses.club_name''), t)
      | Some cn \<Rightarrow>
          (case not_null_text (j_course_name c) of
             None \<Rightarrow> (Some (IntegrityError ''courses.course_name''), t)
           | Some nm \<Rightarrow>
               (None, t\<lparr>courses := (courses t)(cid \<mapsto> \<lparr>club_name = cn, course_name = nm\<rparr>)\<rparr>)))"

text \<open>\<^verbatim>\<open>if location:\<close> and \<^verbatim>\<open>INSERT OR REPLACE INTO locations\<close>.\<close>

definition insert_location :: "int \<Rightarrow> course_json \<Rightarrow> tables \<Rightarrow> exn option \<times> tables" where
  "insert_location cid c t =
     (case j_location c of
        None \<Rightarrow> (None, t)
      | Some loc \<Rightarrow>
          if \<not> location_binds loc then (Some OverflowError, t)
          else (None, t\<lparr>locations := (locations t)(cid \<mapsto> loc)\<rparr>))"

text \<open>The message of \<^verbatim>\<open>raise ValueError("Course data missing 'id'")\<close>.\<close>

definition missing_id :: string where
  "missing_id = ''Course data missing '' @ [CHR 0x27] @ ''id'' @ [CHR 0x27]"

definition save_course_body :: "course_data \<Rightarrow> timestamp \<Rightarrow> tables \<Rightarrow> exn option \<times> tables" where
  "save_course_body cd now t =
     (let c = (case j_course cd of None \<Rightarrow> empty_course | Some c \<Rightarrow> c) in
      case j_id c of
        None \<Rightarrow> (Some (ValueError missing_id), t)
      | Some cid \<Rightarrow>
          if cid = 0 then (Some (ValueError missing_id), t)
          else
            (case insert_course cid c t of
               (Some e, t1) \<Rightarrow> (Some e, t1)
             | (None, t1) \<Rightarrow>
                 (case insert_location cid c t1 of
                    (Some e, t2) \<Rightarrow> (Some e, t2)
                  | (None, t2) \<Rightarrow>
                      (case insert_genders cid
                              [(''male'', j_tees_male c), (''female'', j_tees_female c)] t2 of
                         (Some e, t3) \<Rightarrow> (Some e, t3)
                       | (None, t3) \<Rightarrow>
                           (None, t3\<lparr>scrape_metadata := (scrape_metadata t3)
                              \<lparr>total_courses_scraped :=
                                 total_courses_scraped (scrape_metadata t3) + 1,
                               last_updated := now\<rparr>\<rparr>)))))"

definition save_course :: "course_data \<Rightarrow> world \<Rightarrow> exn option \<times> world" where
  "save_course cd w = transaction (save_course_body cd (clock w)) w"

section \<open>The fetcher (src/src/scraper.py, \<^verbatim>\<open>fetch_course\<close>)\<close>

text \<open>
  What \<^verbatim>\<open>session.get\<close> gives: a response with its status code and decoded body, or a
  \<^verbatim>\<open>RequestException\<close>. The remote side is a function from the id and the number of
  earlier requests for that id to the outcome of the next request. The body of a 200
  response is taken to be JSON that decodes, so \<^verbatim>\<open>response.json()\<close> does not raise.
\<close>

datatype response = Response int course_data | RequestException

type_synonym remote = "int \<Rightarrow> nat \<Rightarrow> response"

definition session_get :: "remote \<Rightarrow> int \<Rightarrow> world \<Rightarrow> response \<times> world" where
  "session_get rem course_id w =
     (rem course_id (count_list (requests w) course_id),
      w\<lparr>requests := course_id # requests w\<rparr>)"

text \<open>
  The loop \<^verbatim>\<open>for attempt in range(1, Config.RETRY_MAX_ATTEMPTS + 1)\<close>, over the values of
  \<^verbatim>\<open>attempt\<close> still to come. The result is the exception raised, or the returned
  \<^verbatim>\<open>Optional[Dict]\<close>. The empty list is the \<^verbatim>\<open>return None\<close> after the loop.
\<close>

fun fetch_attempts :: "remote \<Rightarrow> int \<Rightarrow> nat list \<Rightarrow> world \<Rightarrow> (exn + course_data option) \<times> world" where
  "fetch_attempts rem course_id [] w = (Inr None, w)"
| "fetch_attempts rem course_id (attempt # rest) w =
     (case session_get rem course_id w of
        (RequestException, w1) \<Rightarrow>
          if attempt < RETRY_MAX_ATTEMPTS then
            fetch_attempts rem course_id rest
              (sleep (seconds (RETRY_DELAY_SECONDS * int attempt)) w1)
          else (Inr None, w1)
      | (Response sc body, w1) \<Rightarrow>
          let w2 = record_api_call w1 in
          if sc = 200 then (Inr (Some body), w2)
          else if sc = 404 then (Inr None, w2)
          else if sc = 401 then (Inl (ValueError ''Invalid API key''), w2)
          else if sc = 429 then
            fetch_attempts rem course_id rest (sleep (seconds RATE_LIMIT_SLEEP_SECONDS) w2)
          else if attempt < RETRY_MAX_ATTEMPTS then
            fetch_attempts rem course_id rest
              (sleep (seconds (RETRY_DELAY_SECONDS * int attempt)) w2)
          else (Inr None, w2))"

definition fetch_course :: "remote \<Rightarrow> int \<Rightarrow> world \<Rightarrow> (exn + course_data option) \<times> world" where
  "fetch_course rem course_id w =
     fetch_attempts rem course_id [1 ..< RETRY_MAX_ATTEMPTS + 1] w"

section \<open>The rate limiter\<close>

definition check_rate_limit :: "config \<Rightarrow> world \<Rightarrow> bool" where
  "check_rate_limit cfg w = (get_api_calls_in_window w < MAX_CALLS_PER_DAY cfg)"

definition wait_for_rate_limit_window :: "world \<Rightarrow> world" where
  "wait_for_rate_limit_window w =
     (case get_oldest_api_call_in_window w of
        Some oldest_call \<Rightarrow>
          let window_reset_time = oldest_call + hours RATE_LIMIT_WINDOW_HOURS;
              now = clock w
          in if window_reset_time > now then
               sleep ((window_reset_time - now) + seconds 1) w
             else cleanup_old_api_calls w
      | None \<Rightarrow> sleep (seconds 60) w)"

text \<open>
  Lines 146 to 151 of \<^verbatim>\<open>scrape\<close>: the check before the fetch, once, with the wait and
  the purge when the limit is reached.
\<close>

definition await_rate_limit :: "config \<Rightarrow> world \<Rightarrow> world" where
  "await_rate_limit cfg w =
     (if \<not> check_rate_limit cfg w then
        cleanup_old_api_calls (wait_for_rate_limit_window w)
      else w)"

section \<open>The crawl engine (\<^verbatim>\<open>scrape\<close>)\<close>

text \<open>
  The state of the loop: the local variables \<^verbatim>\<open>current_id\<close> and
  \<^verbatim>\<open>consecutive_404s\<close>, and the world.
\<close>

type_synonym loop_state = "int \<times> int \<times> world"

text \<open>Lines 157 to 198: what the engine does with the result of the fetch.\<close>

definition handle_result :: "int \<Rightarrow> int \<Rightarrow> course_data option \<Rightarrow> world \<Rightarrow> int \<times> world" where
  "handle_result current_id c404 course_data w =
     (if truthy course_data then
        let w1 = (case save_course (the course_data) w of
                    (None, w') \<Rightarrow> record_scrape_attempt current_id 200 True w'
                  | (Some e, w') \<Rightarrow> record_scrape_attempt current_id 200 False w')
        in (0, update_scrape_metadata
                 (no_kwargs\<lparr>kw_last_scraped_id := Some current_id,
                            kw_consecutive_404s := Some 0\<rparr>) w1)
      else
        let w1 = record_scrape_attempt current_id 404 False w;
            c = c404 + 1
        in (c, update_scrape_metadata
                 (no_kwargs\<lparr>kw_last_scraped_id := Some current_id,
                            kw_consecutive_404s := Some c\<rparr>) w1))"

text \<open>
  One pass through the body of \<^verbatim>\<open>while consecutive_404s < Config.CONSECUTIVE_404_LIMIT\<close>.
  An exception of \<^verbatim>\<open>fetch_course\<close> is not caught here: it leaves the loop with the
  locals as they are.
\<close>

definition scrape_iteration :: "remote \<Rightarrow> config \<Rightarrow> loop_state \<Rightarrow> exn option \<times> loop_state" where
  "scrape_iteration rem cfg st =
     (case st of (current_id, c404, w) \<Rightarrow>
        if is_course_already_attempted current_id w then (None, (current_id + 1, c404, w))
        else
          (case fetch_course rem current_id (await_rate_limit cfg w) of
             (Inl e, w2) \<Rightarrow> (Some e, (current_id, c404, w2))
           | (Inr course_data, w2) \<Rightarrow>
               (case handle_result current_id c404 course_data w2 of
                  (c404', w3) \<Rightarrow>
                    let current_id' = current_id + 1;
                        w4 = sleep REQUEST_DELAY_SECONDS w3;
                        w5 = (if current_id' mod 100 = 0 then cleanup_old_api_calls w4 else w4)
                    in (None, (current_id', c404', w5)))))"

text \<open>
  The loop can run for ever (a remote that answers 200 to every id), so it is given fuel:
  the number of passes it may still make. The condition of the \<^verbatim>\<open>while\<close> is tested
  first, so a loop whose condition is false ends whatever the fuel.
\<close>

datatype loop_end = LoopExit | LoopRaised exn | LoopOutOfFuel

fun scrape_loop :: "nat \<Rightarrow> remote \<Rightarrow> config \<Rightarrow> loop_state \<Rightarrow> loop_end \<times> loop_state" where
  "scrape_loop fuel rem cfg (current_id, c404, w) =
     (if \<not> c404 < CONSECUTIVE_404_LIMIT cfg then (LoopExit, (current_id, c404, w))
      else case fuel of
        0 \<Rightarrow> (LoopOutOfFuel, (current_id, c404, w))
      | Suc n \<Rightarrow>
          (case scrape_iteration rem cfg (current_id, c404, w) of
             (Some e, st) \<Rightarrow> (LoopRaised e, st)
           | (None, st) \<Rightarrow> scrape_loop n rem cfg st))"

datatype run_end = Returned | Raised exn | OutOfFuel

definition scrape :: "nat \<Rightarrow> remote \<Rightarrow> config \<Rightarrow> world \<Rightarrow> run_end \<times> world" where
  "scrape fuel rem cfg w =
     (let metadata = get_scrape_metadata w in
      if scraping_complete metadata then (Returned, w)
      else
        (case scrape_loop fuel rem cfg
                (last_scraped_id metadata + 1, consecutive_404s metadata, w) of
           (LoopExit, (_, _, w1)) \<Rightarrow>
             (Returned, update_scrape_metadata (no_kwargs\<lparr>kw_scraping_complete := Some True\<rparr>) w1)
         | (LoopRaised e, (_, _, w1)) \<Rightarrow> (Raised e, w1)
         | (LoopOutOfFuel, (_, _, w1)) \<Rightarrow> (OutOfFuel, w1)))"

section \<open>The entry point (src/src/main.py)\<close>

text \<open>
  \<^verbatim>\<open>main\<close> gives the exit status of the process, \<open>None\<close> when the crawl is still running
  as the fuel ends, and the world it leaves. Signals and \<^verbatim>\<open>KeyboardInterrupt\<close> are not
  part of the model: the flag \<^verbatim>\<open>shutdown_requested\<close> that the handler sets is never read
  by the loop. An invalid configuration exits with 1 before
  the store is opened; an exception of the crawl exits with 1; in both other ways out the
  status is 0. The \<^verbatim>\<open>finally\<close> clause closes the connection on every way out of the
  \<^verbatim>\<open>try\<close>.
\<close>

definition main :: "nat \<Rightarrow> remote \<Rightarrow> config \<Rightarrow> world \<Rightarrow> int option \<times> world" where
  "main fuel rem cfg w =
     (case validate cfg of
        Some e \<Rightarrow> (Some 1, w)
      | None \<Rightarrow>
          let w1 = Database w;
              metadata = get_scrape_metadata w1
          in if scraping_complete metadata then (Some 0, close w1)
             else
               (case scrape fuel rem cfg w1 of
                  (Returned, w2) \<Rightarrow> (Some 0, close w2)
                | (Raised e, w2) \<Rightarrow> (Some 1, close w2)
                | (OutOfFuel, w2) \<Rightarrow> (None, w2)))"

section \<open>Notions used in the statements\<close>

text \<open>The three ledgers of the store, apart from the tables that hold the courses.\<close>

definition ledgers :: "tables \<Rightarrow> scrape_metadata_row \<times> timestamp list \<times> (int \<rightharpoonup> attempt_row)" where
  "ledgers t = (scrape_metadata t, api_calls t, scrape_attempts t)"

text \<open>
  Of \<open>n\<close> successive requests for an id, the first of them being request number \<open>k\<close> for
  that id, the number that the remote side answers with a response.
\<close>

fun responded :: "remote \<Rightarrow> int \<Rightarrow> nat \<Rightarrow> nat \<Rightarrow> nat" where
  "responded rem course_id k 0 = 0"
| "responded rem course_id k (Suc n) =
     (if rem course_id k = RequestException then 0 else 1) + responded rem course_id (Suc k) n"

text \<open>
  What a run of requests for one id may do to a world: \<open>n\<close> requests, at most \<open>m\<close>, all
  for that id; one call record for each answered request and none else, stamped no
  earlier than the start; the clock does not go back; nothing else changes.
\<close>

definition fetch_effect :: "remote \<Rightarrow> int \<Rightarrow> nat \<Rightarrow> world \<Rightarrow> world \<Rightarrow> bool" where
  "fetch_effect rem course_id m w w' \<longleftrightarrow>
     (\<exists>n new. n \<le> m \<and> requests w' = replicate n course_id @ requests w
        \<and> api_calls (db w') = new @ api_calls (db w)
        \<and> length new = responded rem course_id (count_list (requests w) course_id) n
        \<and> (\<forall>ts \<in> set new. clock w \<le> ts)
        \<and> clock w \<le> clock w'
        \<and> (db w')\<lparr>api_calls := []\<rparr> = (db w)\<lparr>api_calls := []\<rparr>
        \<and> conn_open w' = conn_open w)"

text \<open>The end of a pass: the cursor moves, the delay, the periodic purge.\<close>

definition end_of_pass :: "int \<Rightarrow> world \<Rightarrow> world" where
  "end_of_pass current_id' w3 =
     (let w4 = sleep REQUEST_DELAY_SECONDS w3
      in if current_id' mod 100 = 0 then cleanup_old_api_calls w4 else w4)"

text \<open>What a run of the loop may do, from its first pass to the point where it stops.\<close>

definition loop_effect :: "loop_state \<Rightarrow> loop_state \<Rightarrow> bool" where
  "loop_effect st st' \<longleftrightarrow>
     (case (st, st') of ((cur, c, w), (cur', c', w')) \<Rightarrow>
        (\<exists>new. requests w' = new @ requests w
           \<and> (\<forall>i \<in> set new. cur \<le> i \<and> \<not> is_course_already_attempted i w))
        \<and> dom (scrape_attempts (db w)) \<subseteq> dom (scrape_attempts (db w'))
        \<and> cur \<le> cur'
        \<and> scraping_complete (scrape_metadata (db w')) = scraping_complete (scrape_metadata (db w))
        \<and> conn_open w' = conn_open w
        \<and> clock w \<le> clock w'
        \<and> (last_scraped_id (scrape_metadata (db w)) < cur \<longrightarrow>
             last_scraped_id (scrape_metadata (db w)) \<le> last_scraped_id (scrape_metadata (db w'))
             \<and> last_scraped_id (scrape_metadata (db w')) < cur'))"

text \<open>The rows of the tables that hold the courses.\<close>

definition course_tables ::
  "tables \<Rightarrow> (int \<rightharpoonup> course_row) \<times> (int \<rightharpoonup> location_json) \<times> tee_row list \<times> int \<times> hole_row list" where
  "course_tables t = (courses t, locations t, tees t, tees_seq t, holes t)"

text \<open>No row for a course id: in \<^verbatim>\<open>courses\<close>, in \<^verbatim>\<open>locations\<close>, in \<^verbatim>\<open>tees\<close>, nor in
  \<^verbatim>\<open>holes\<close> under one of its tees.\<close>

definition no_rows_for :: "int \<Rightarrow> tables \<Rightarrow> bool" where
  "no_rows_for cid t \<longleftrightarrow>
     courses t cid = None \<and> locations t cid = None
     \<and> filter (\<lambda>r. tee_course_id r = cid) (tees t) = []
     \<and> filter (\<lambda>h. hole_tee_id h \<in> set (map tee_id (filter (\<lambda>r. tee_course_id r = cid) (tees t))))
          (holes t) = []"

text \<open>
  A payload that \<^verbatim>\<open>save_course\<close> accepts: a course with an id other than 0, no null
  name, and tees that each have a name and at most 18 holes, every integer of it within
  the signed 64-bit range.
\<close>

definition well_formed :: "course_data \<Rightarrow> bool" where
  "well_formed cd \<longleftrightarrow>
     (case j_course cd of
        None \<Rightarrow> False
      | Some c \<Rightarrow>
          (case j_id c of None \<Rightarrow> False | Some i \<Rightarrow> i \<noteq> 0 \<and> int64 i)
          \<and> j_club_name c \<noteq> JNull \<and> j_course_name c \<noteq> JNull
          \<and> (case j_location c of None \<Rightarrow> True | Some loc \<Rightarrow> location_binds loc)
          \<and> (\<forall>tee \<in> set (j_tees_male c @ j_tees_female c).
                j_tee_name tee \<noteq> None \<and> ratings_bind (j_ratings tee)
                \<and> length (j_holes tee) \<le> 18
                \<and> (\<forall>h \<in> set (j_holes tee). hole_binds h)))"

section \<open>Concrete worlds for the instances\<close>


definition absent_body :: course_data where
  "absent_body = \<lparr>j_course = None, j_other_keys = False\<rparr>"

definition remote_404 :: remote where
  "remote_404 = (\<lambda>i k. Response 404 absent_body)"

definition small_config :: config where
  "small_config = \<lparr>API_KEY = Some ''key'', MAX_CALLS_PER_DAY = 295, CONSECUTIVE_404_LIMIT = 2\<rparr>"

definition fresh_world :: world where
  "fresh_world = \<lparr>db = fresh_tables 0, clock = 0, requests = [], conn_open = False\<rparr>"

definition resumed_world :: world where
  "resumed_world =
     \<lparr>db = (fresh_tables 0)
        \<lparr>scrape_metadata := \<lparr>last_scraped_id = 100, consecutive_404s = 0,
             total_courses_scraped = 60, scraping_complete = False, last_updated = 0\<rparr>,
         scrape_attempts := (\<lambda>i. if 1 \<le> i \<and> i \<le> 100
             then Some \<lparr>status_code = 404, success = False\<rparr> else None)\<rparr>,
      clock = hours 48, requests = [], conn_open = True\<rparr>"

definition remote_403 :: remote where
  "remote_403 = (\<lambda>i k. Response 403 absent_body)"

definition remote_401 :: remote where
  "remote_401 = (\<lambda>i k. if i = 2 then Response 401 absent_body else Response 404 absent_body)"

definition no_ratings :: tee_ratings where
  "no_ratings = \<lparr>course_rating = None, slope_rating = None, bogey_rating = None,
     total_yards = None, total_meters = None, number_of_holes = None, par_total = None,
     front_course_rating = None, front_slope_rating = None, front_bogey_rating = None,
     back_course_rating = None, back_slope_rating = None, back_bogey_rating = None\<rparr>"

definition par_four :: hole_json where
  "par_four = \<lparr>par = Some (JInt 4), yardage = Some (JInt 400), handicap = None\<rparr>"

definition blue_tee :: tee_json where
  "blue_tee = \<lparr>j_tee_name = Some ''Blue'', j_ratings = no_ratings, j_holes = [par_four, par_four]\<rparr>"

definition nameless_tee :: tee_json where
  "nameless_tee = \<lparr>j_tee_name = None, j_ratings = no_ratings, j_holes = [par_four]\<rparr>"

definition good_payload :: "int \<Rightarrow> course_data" where
  "good_payload i =
     \<lparr>j_course = Some \<lparr>j_id = Some i, j_club_name = JVal ''Club'', j_course_name = JVal ''Course'',
         j_location = Some \<lparr>address = Some ''1 Main St'', city = None, state = None,
                             country = None, latitude = None, longitude = None\<rparr>,
         j_tees_male = [blue_tee], j_tees_female = []\<rparr>,
      j_other_keys = False\<rparr>"

text \<open>A payload whose second tee has no name: the write fails after the course, its
  location, the first tee and its holes have been inserted.\<close>

definition bad_payload :: "int \<Rightarrow> course_data" where
  "bad_payload i =
     \<lparr>j_course = Some \<lparr>j_id = Some i, j_club_name = JVal ''Club'', j_course_name = JVal ''Course'',
         j_location = Some \<lparr>address = Some ''1 Main St'', city = None, state = None,
                             country = None, latitude = None, longitude = None\<rparr>,
         j_tees_male = [blue_tee], j_tees_female = [nameless_tee]\<rparr>,
      j_other_keys = False\<rparr>"

definition remote_bad :: remote where
  "remote_bad = (\<lambda>i k. Response 200 (bad_payload i))"

text \<open>A payload with a hole whose par is the integer \<^verbatim>\<open>2 ** 63\<close>, one more than a signed
  64-bit integer holds: binding it raises \<^verbatim>\<open>OverflowError\<close>, after the course, its
  location and the tee have been inserted.\<close>

definition huge_par :: hole_json where
  "huge_par = \<lparr>par = Some (JInt (2 ^ 63)), yardage = Some (JInt 400), handicap = None\<rparr>"

definition huge_tee :: tee_json where
  "huge_tee = \<lparr>j_tee_name = Some ''Blue'', j_ratings = no_ratings, j_holes = [par_four, huge_par]\<rparr>"

definition huge_payload :: "int \<Rightarrow> course_data" where
  "huge_payload i =
     \<lparr>j_course = Some \<lparr>j_id = Some i, j_club_name = JVal ''Club'', j_course_name = JVal ''Course'',
         j_location = Some \<lparr>address = Some ''1 Main St'', city = None, state = None,
                             country = None, latitude = None, longitude = None\<rparr>,
         j_tees_male = [huge_tee], j_tees_female = []\<rparr>,
      j_other_keys = False\<rparr>"

definition remote_huge :: remote where
  "remote_huge = (\<lambda>i k. Response 200 (huge_payload i))"

text \<open>A store that holds a course saved earlier under id 1.\<close>

definition stored_world :: world where
  "stored_world = snd (save_course (good_payload 1) fresh_world)"

definition remote_down :: remote where
  "remote_down = (\<lambda>i k. RequestException)"

definition remote_flaky :: remote where
  "remote_flaky = (\<lambda>i k. if k = 0 then RequestException
                          else if k = 1 then Response 429 absent_body
                          else Response 200 (good_payload i))"

definition remote_two_errors :: remote where
  "remote_two_errors = (\<lambda>i k. if k < 2 then Response 503 absent_body
                               else Response 200 (good_payload i))"

definition remote_throttle_two_errors :: remote where
  "remote_throttle_two_errors =
     (\<lambda>i k. if k = 0 then Response 429 absent_body
             else if k < 3 then Response 503 absent_body
             else Response 200 (good_payload i))"





definition remote_scenario :: remote where
  "remote_scenario =
     (\<lambda>i k. if i = 1 \<or> i = 2 then Response 200 (good_payload i)
             else if i = 3 then Response 404 absent_body
             else if i = 4 \<and> k = 0 then Response 429 absent_body
             else if i = 4 then Response 200 (good_payload 4)
             else Response 404 absent_body)"

section \<open>Lemmas on the store and the fetcher\<close>

lemmas db_op_defs = transaction_def update_scrape_metadata_def record_api_call_def
  cleanup_old_api_calls_def record_scrape_attempt_def sleep_def


lemma insert_holes_ledgers:
  "insert_holes tid n hs t = (x, t') \<Longrightarrow> ledgers t' = ledgers t"
proof (induction hs arbitrary: n t)
  case Nil
  then show ?case by simp
next
  case (Cons h hs)
  show ?case
  proof (cases "hole_binds h \<and> 1 \<le> n \<and> n \<le> 18")
    case True
    with Cons.prems have "insert_holes tid (n + 1) hs
        (t\<lparr>holes := holes t @ [\<lparr>hole_tee_id = tid, hole_number = n, hole = h\<rparr>]\<rparr>) = (x, t')"
      by simp
    from Cons.IH[OF this] show ?thesis by (simp add: ledgers_def)
  next
    case False
    with Cons.prems have "t' = t" by (auto split: if_splits)
    then show ?thesis by simp
  qed
qed

lemma insert_tees_ledgers:
  "insert_tees cid g ts t = (x, t') \<Longrightarrow> ledgers t' = ledgers t"
proof (induction ts arbitrary: t)
  case Nil
  then show ?case by simp
next
  case (Cons tee rest)
  show ?case
  proof (cases "ratings_bind (j_ratings tee)")
    case False
    with Cons.prems show ?thesis by simp
  next
    case rb: True
    show ?thesis
    proof (cases "j_tee_name tee")
      case None
      with rb Cons.prems show ?thesis by simp
    next
      case (Some name)
      show ?thesis
      proof (cases "g \<in> {''male'', ''female''}")
        case False
        with rb Some Cons.prems have "t' = t" by (simp del: insert_iff)
        then show ?thesis by simp
      next
        case True
        define t1 where "t1 = t\<lparr>tees := tees t @ [\<lparr>tee_id = tees_seq t + 1, tee_course_id = cid,
                                  gender = g, tee_name = name, ratings = j_ratings tee\<rparr>],
                         tees_seq := tees_seq t + 1\<rparr>"
        obtain y t2 where ih: "insert_holes (tees_seq t + 1) 1 (j_holes tee) t1 = (y, t2)"
          by (cases "insert_holes (tees_seq t + 1) 1 (j_holes tee) t1") auto
        have t2: "ledgers t2 = ledgers t"
          using insert_holes_ledgers[OF ih] by (simp add: t1_def ledgers_def)
        show ?thesis
        proof (cases y)
          case None
          with rb Some True Cons.prems ih have "insert_tees cid g rest t2 = (x, t')"
            by (simp add: Let_def t1_def del: insert_iff)
          from Cons.IH[OF this] t2 show ?thesis by simp
        next
          case (Some e)
          with rb \<open>j_tee_name tee = Some name\<close> True Cons.prems ih have "t' = t2"
            by (simp add: Let_def t1_def del: insert_iff)
          with t2 show ?thesis by simp
        qed
      qed
    qed
  qed
qed

lemma insert_genders_ledgers:
  "insert_genders cid gs t = (x, t') \<Longrightarrow> ledgers t' = ledgers t"
proof (induction gs arbitrary: t)
  case Nil
  then show ?case by simp
next
  case (Cons a gs)
  obtain g tl where a: "a = (g, tl)" by (cases a)
  obtain y t1 where it: "insert_tees cid g tl t = (y, t1)" by (cases "insert_tees cid g tl t") auto
  note t1 = insert_tees_ledgers[OF it]
  show ?case
  proof (cases y)
    case None
    with Cons.prems a it have "insert_genders cid gs t1 = (x, t')" by simp
    from Cons.IH[OF this] t1 show ?thesis by simp
  next
    case (Some e)
    with Cons.prems a it have "t' = t1" by simp
    with t1 show ?thesis by simp
  qed
qed

lemma save_course_rollback: "save_course cd w = (Some e, w') \<Longrightarrow> w' = w"
  by (auto simp: save_course_def transaction_def split: prod.splits option.splits)

lemma insert_course_ledgers:
  "insert_course cid c t = (x, t') \<Longrightarrow> ledgers t' = ledgers t"
  by (auto simp: insert_course_def ledgers_def split: if_splits option.splits)

lemma insert_location_ledgers:
  "insert_location cid c t = (x, t') \<Longrightarrow> ledgers t' = ledgers t"
  by (auto simp: insert_location_def ledgers_def split: if_splits option.splits)

lemma save_course_body_commit:
  assumes body: "save_course_body cd now t = (None, t')"
  shows "ledgers t' = ((scrape_metadata t)
               \<lparr>total_courses_scraped := total_courses_scraped (scrape_metadata t) + 1,
                last_updated := now\<rparr>, api_calls t, scrape_attempts t)"
proof -
  define c where "c = (case j_course cd of None \<Rightarrow> empty_course | Some c \<Rightarrow> c)"
  from body obtain cid where cid: "j_id c = Some cid" "cid \<noteq> 0"
    by (auto simp: save_course_body_def c_def[symmetric] Let_def split: option.splits if_splits)
  obtain x1 t1 where i1: "insert_course cid c t = (x1, t1)" by (metis prod.exhaust)
  obtain x2 t2 where i2: "insert_location cid c t1 = (x2, t2)" by (metis prod.exhaust)
  obtain x3 t3 where i3: "insert_genders cid
      [(''male'', j_tees_male c), (''female'', j_tees_female c)] t2 = (x3, t3)"
    by (metis prod.exhaust)
  have step: "save_course_body cd now t =
      (case x1 of Some e \<Rightarrow> (Some e, t1)
       | None \<Rightarrow> (case x2 of Some e \<Rightarrow> (Some e, t2)
          | None \<Rightarrow> (case x3 of Some e \<Rightarrow> (Some e, t3)
             | None \<Rightarrow> (None, t3\<lparr>scrape_metadata := (scrape_metadata t3)
                            \<lparr>total_courses_scraped := total_courses_scraped (scrape_metadata t3) + 1,
                             last_updated := now\<rparr>\<rparr>))))"
    using cid i1 i2 i3
    by (simp add: save_course_body_def c_def[symmetric] Let_def del: insert_genders.simps
        split: option.splits)
  from body step have x: "x1 = None" "x2 = None" "x3 = None"
    and t': "t' = t3\<lparr>scrape_metadata := (scrape_metadata t3)
                            \<lparr>total_courses_scraped := total_courses_scraped (scrape_metadata t3) + 1,
                             last_updated := now\<rparr>\<rparr>"
    by (auto split: option.splits)
  have "ledgers t3 = ledgers t"
    using insert_course_ledgers[OF i1] insert_location_ledgers[OF i2]
      insert_genders_ledgers[OF i3] by simp
  then show ?thesis by (simp add: t' ledgers_def)
qed

lemma save_course_commit:
  assumes "save_course cd w = (None, w')"
  shows "clock w' = clock w" "requests w' = requests w" "conn_open w' = conn_open w"
    "api_calls (db w') = api_calls (db w)" "scrape_attempts (db w') = scrape_attempts (db w)"
    "scrape_metadata (db w') = (scrape_metadata (db w))
               \<lparr>total_courses_scraped := total_courses_scraped (scrape_metadata (db w)) + 1,
                last_updated := clock w\<rparr>"
proof -
  from assms obtain t' where body: "save_course_body cd (clock w) (db w) = (None, t')" and w': "w' = w\<lparr>db := t'\<rparr>"
    by (auto simp: save_course_def transaction_def split: prod.splits option.splits)
  note rf = save_course_body_commit[OF body]
  show "clock w' = clock w" "requests w' = requests w" "conn_open w' = conn_open w" by (simp_all add: w')
  from rf show "api_calls (db w') = api_calls (db w)" "scrape_attempts (db w') = scrape_attempts (db w)"
    "scrape_metadata (db w') = (scrape_metadata (db w))
               \<lparr>total_courses_scraped := total_courses_scraped (scrape_metadata (db w)) + 1,
                last_updated := clock w\<rparr>"
    by (simp_all add: w' ledgers_def)
qed

lemma fetch_effect_refl: "fetch_effect rem cid m w w"
  unfolding fetch_effect_def
  by (rule exI[of _ 0], rule exI[of _ "[]"]) simp

lemma fetch_effect_request:
  assumes rest: "fetch_effect rem cid m w1 w'"
    and d: "0 \<le> d"
    and w1: "w1 = sleep d (if rem cid (count_list (requests w) cid) = RequestException
                then w\<lparr>requests := cid # requests w\<rparr>
                else record_api_call (w\<lparr>requests := cid # requests w\<rparr>))"
  shows "fetch_effect rem cid (Suc m) w w'"
proof -
  let ?k = "count_list (requests w) cid"
  from rest obtain n new where n: "n \<le> m"
    and rq: "requests w' = replicate n cid @ requests w1"
    and ac: "api_calls (db w') = new @ api_calls (db w1)"
    and ln: "length new = responded rem cid (count_list (requests w1) cid) n"
    and ts: "\<forall>ts \<in> set new. clock w1 \<le> ts"
    and ck: "clock w1 \<le> clock w'"
    and fr: "(db w')\<lparr>api_calls := []\<rparr> = (db w1)\<lparr>api_calls := []\<rparr>"
    and co: "conn_open w' = conn_open w1"
    unfolding fetch_effect_def by blast
  have rq1: "requests w1 = cid # requests w" by (simp add: w1 db_op_defs)
  have ck1: "clock w1 = clock w + d" by (simp add: w1 db_op_defs)
  have co1: "conn_open w1 = conn_open w" by (simp add: w1 db_op_defs)
  have fr1: "(db w1)\<lparr>api_calls := []\<rparr> = (db w)\<lparr>api_calls := []\<rparr>" by (simp add: w1 db_op_defs)
  have ac1: "api_calls (db w1) = (if rem cid ?k = RequestException then [] else [clock w]) @ api_calls (db w)"
    by (simp add: w1 db_op_defs)
  let ?new = "new @ (if rem cid ?k = RequestException then [] else [clock w])"
  have "Suc n \<le> Suc m" using n by simp
  moreover have "requests w' = replicate (Suc n) cid @ requests w"
    using rq rq1 by (simp add: replicate_app_Cons_same)
  moreover have "api_calls (db w') = ?new @ api_calls (db w)" using ac ac1 by simp
  moreover have "length ?new = responded rem cid ?k (Suc n)" using ln rq1 by simp
  moreover have "\<forall>ts \<in> set ?new. clock w \<le> ts" using ts ck1 d by auto
  moreover have "clock w \<le> clock w'" using ck ck1 d by simp
  moreover have "(db w')\<lparr>api_calls := []\<rparr> = (db w)\<lparr>api_calls := []\<rparr>" using fr fr1 by simp
  moreover have "conn_open w' = conn_open w" using co co1 by simp
  ultimately show ?thesis unfolding fetch_effect_def by blast
qed

lemma sleep_0: "sleep 0 w = w"
  by (simp add: sleep_def)

lemma retry_delay_nonneg: "0 \<le> seconds (RETRY_DELAY_SECONDS * int a)"
  by (simp add: seconds_def RETRY_DELAY_SECONDS_def)

lemma cooldown_nonneg: "0 \<le> seconds RATE_LIMIT_SLEEP_SECONDS"
  by (simp add: seconds_def RATE_LIMIT_SLEEP_SECONDS_def)

lemma fetch_attempts_effect:
  "fetch_attempts rem cid as w = (r, w') \<Longrightarrow> fetch_effect rem cid (length as) w w'"
proof (induction as arbitrary: w)
  case Nil
  then show ?case by (simp add: fetch_effect_refl)
next
  case (Cons a rest)
  let ?k = "count_list (requests w) cid"
  let ?w1 = "w\<lparr>requests := cid # requests w\<rparr>"
  show ?case
  proof (cases "rem cid ?k")
    case RequestException
    show ?thesis
    proof (cases "a < RETRY_MAX_ATTEMPTS")
      case True
      with RequestException Cons.prems
      have "fetch_attempts rem cid rest (sleep (seconds (RETRY_DELAY_SECONDS * int a)) ?w1) = (r, w')"
        by (simp add: session_get_def)
      from Cons.IH[OF this] show ?thesis
        using RequestException
        by (auto intro!: fetch_effect_request[where d = "seconds (RETRY_DELAY_SECONDS * int a)"] retry_delay_nonneg)
    next
      case False
      with RequestException Cons.prems have "w' = ?w1" by (simp add: session_get_def)
      then show ?thesis using RequestException
        by (auto intro!: fetch_effect_request[where d = 0 and ?w1.0 = ?w1] fetch_effect_refl simp: sleep_0)
    qed
  next
    case (Response sc body)
    let ?w2 = "record_api_call ?w1"
    have stop: "fetch_effect rem cid (Suc (length rest)) w ?w2"
      using Response
      by (auto intro!: fetch_effect_request[where d = 0 and ?w1.0 = ?w2] fetch_effect_refl simp: sleep_0)
    have retry: "fetch_effect rem cid (Suc (length rest)) w w'"
      if "fetch_attempts rem cid rest (sleep d ?w2) = (r, w')" "0 \<le> d" for d
      using Cons.IH[OF that(1)] that(2) Response
      by (auto intro!: fetch_effect_request[where d = d])
    from Cons.prems Response
    consider "w' = ?w2"
      | "fetch_attempts rem cid rest (sleep (seconds RATE_LIMIT_SLEEP_SECONDS) ?w2) = (r, w')"
      | "fetch_attempts rem cid rest (sleep (seconds (RETRY_DELAY_SECONDS * int a)) ?w2) = (r, w')"
      by (auto simp: session_get_def Let_def split: if_splits)
    then show ?thesis
    proof cases
      case 1
      with stop show ?thesis by simp
    next
      case 2
      from retry[OF this cooldown_nonneg] show ?thesis by simp
    next
      case 3
      from retry[OF this retry_delay_nonneg] show ?thesis by simp
    qed
  qed
qed

lemma fetch_course_effect:
  "fetch_course rem cid w = (r, w') \<Longrightarrow> fetch_effect rem cid RETRY_MAX_ATTEMPTS w w'"
proof -
  assume "fetch_course rem cid w = (r, w')"
  then have "fetch_attempts rem cid [1 ..< RETRY_MAX_ATTEMPTS + 1] w = (r, w')"
    unfolding fetch_course_def .
  from fetch_attempts_effect[OF this] show ?thesis
    unfolding length_upt by simp
qed

section \<open>Lemmas on the engine\<close>

lemma wait_for_rate_limit_window_effect:
  "requests (wait_for_rate_limit_window w) = requests w"
  "conn_open (wait_for_rate_limit_window w) = conn_open w"
  "clock w \<le> clock (wait_for_rate_limit_window w)"
  "scrape_metadata (db (wait_for_rate_limit_window w)) = scrape_metadata (db w)"
  "scrape_attempts (db (wait_for_rate_limit_window w)) = scrape_attempts (db w)"
  "(db (wait_for_rate_limit_window w))\<lparr>api_calls := []\<rparr> = (db w)\<lparr>api_calls := []\<rparr>"
  by (simp_all add: wait_for_rate_limit_window_def db_op_defs Let_def seconds_def
        split: option.splits)

lemma await_rate_limit_effect:
  "requests (await_rate_limit cfg w) = requests w"
  "conn_open (await_rate_limit cfg w) = conn_open w"
  "clock w \<le> clock (await_rate_limit cfg w)"
  "scrape_metadata (db (await_rate_limit cfg w)) = scrape_metadata (db w)"
  "scrape_attempts (db (await_rate_limit cfg w)) = scrape_attempts (db w)"
  "(db (await_rate_limit cfg w))\<lparr>api_calls := []\<rparr> = (db w)\<lparr>api_calls := []\<rparr>"
  using wait_for_rate_limit_window_effect[of w]
  by (simp_all add: await_rate_limit_def cleanup_old_api_calls_def transaction_def)

lemma fetch_effect_ledgers:
  assumes "fetch_effect rem cid m w w'"
  shows "scrape_metadata (db w') = scrape_metadata (db w)"
    and "scrape_attempts (db w') = scrape_attempts (db w)"
    and "conn_open w' = conn_open w"
    and "clock w \<le> clock w'"
proof -
  from assms have fr: "(db w')\<lparr>api_calls := []\<rparr> = (db w)\<lparr>api_calls := []\<rparr>"
    and co: "conn_open w' = conn_open w" and ck: "clock w \<le> clock w'"
    unfolding fetch_effect_def by blast+
  from arg_cong[OF fr, of scrape_metadata] show "scrape_metadata (db w') = scrape_metadata (db w)" by simp
  from arg_cong[OF fr, of scrape_attempts] show "scrape_attempts (db w') = scrape_attempts (db w)" by simp
  from co ck show "conn_open w' = conn_open w" "clock w \<le> clock w'" .
qed

lemma fetch_effect_requests:
  assumes "fetch_effect rem cid m w w'"
  shows "\<exists>n\<le>m. requests w' = replicate n cid @ requests w"
  using assms unfolding fetch_effect_def by blast

lemma handle_result_effect:
  assumes "handle_result cur c r w = (c', w')"
  shows "requests w' = requests w" "clock w' = clock w" "conn_open w' = conn_open w"
    "api_calls (db w') = api_calls (db w)"
    "\<exists>row. scrape_attempts (db w') = (scrape_attempts (db w))(cur \<mapsto> row)"
    "last_scraped_id (scrape_metadata (db w')) = cur"
    "consecutive_404s (scrape_metadata (db w')) = c'"
    "scraping_complete (scrape_metadata (db w')) = scraping_complete (scrape_metadata (db w))"
    "if truthy r then c' = 0 else c' = c + 1"
proof -
  show "if truthy r then c' = 0 else c' = c + 1"
    using assms by (auto simp: handle_result_def Let_def split: if_splits)
  have "requests w' = requests w \<and> clock w' = clock w \<and> conn_open w' = conn_open w
      \<and> api_calls (db w') = api_calls (db w)
      \<and> (\<exists>row. scrape_attempts (db w') = (scrape_attempts (db w))(cur \<mapsto> row))
      \<and> last_scraped_id (scrape_metadata (db w')) = cur
      \<and> consecutive_404s (scrape_metadata (db w')) = c'
      \<and> scraping_complete (scrape_metadata (db w')) = scraping_complete (scrape_metadata (db w))"
  proof (cases "truthy r")
    case False
    with assms show ?thesis
      by (auto simp: handle_result_def Let_def db_op_defs set_clauses_def no_kwargs_def)
  next
    case True
    obtain x ws where sv: "save_course (the r) w = (x, ws)" by (cases "save_course (the r) w") auto
    show ?thesis
    proof (cases x)
      case None
      note cm = save_course_commit[OF sv[unfolded None]]
      from assms True sv None cm show ?thesis
        by (auto simp: handle_result_def Let_def db_op_defs set_clauses_def no_kwargs_def)
    next
      case (Some e)
      with sv have "ws = w" by (simp add: save_course_rollback)
      with assms True sv Some show ?thesis
        by (auto simp: handle_result_def Let_def db_op_defs set_clauses_def no_kwargs_def)
    qed
  qed
  then show "requests w' = requests w" "clock w' = clock w" "conn_open w' = conn_open w"
    "api_calls (db w') = api_calls (db w)"
    "\<exists>row. scrape_attempts (db w') = (scrape_attempts (db w))(cur \<mapsto> row)"
    "last_scraped_id (scrape_metadata (db w')) = cur"
    "consecutive_404s (scrape_metadata (db w')) = c'"
    "scraping_complete (scrape_metadata (db w')) = scraping_complete (scrape_metadata (db w))"
    by blast+
qed

lemma end_of_pass_effect:
  "requests (end_of_pass i w) = requests w"
  "conn_open (end_of_pass i w) = conn_open w"
  "clock (end_of_pass i w) = clock w + REQUEST_DELAY_SECONDS"
  "scrape_metadata (db (end_of_pass i w)) = scrape_metadata (db w)"
  "scrape_attempts (db (end_of_pass i w)) = scrape_attempts (db w)"
  by (simp_all add: end_of_pass_def db_op_defs Let_def)

lemma scrape_iteration_cases:
  assumes "scrape_iteration rem cfg (cur, c, w) = (x, (cur', c', w'))"
  obtains (skip) "is_course_already_attempted cur w" "x = None" "cur' = cur + 1" "c' = c" "w' = w"
  | (raised) e where "\<not> is_course_already_attempted cur w" "x = Some e" "cur' = cur" "c' = c"
      "fetch_course rem cur (await_rate_limit cfg w) = (Inl e, w')"
  | (handled) r w2 w3 where "\<not> is_course_already_attempted cur w" "x = None" "cur' = cur + 1"
      "fetch_course rem cur (await_rate_limit cfg w) = (Inr r, w2)"
      "handle_result cur c r w2 = (c', w3)" "w' = end_of_pass (cur + 1) w3"
  using assms
  by (auto simp: scrape_iteration_def end_of_pass_def Let_def split: if_splits prod.splits sum.splits)

lemma scrape_iteration_effect:
  assumes it: "scrape_iteration rem cfg (cur, c, w) = (x, (cur', c', w'))"
  shows "\<exists>n. requests w' = replicate n cur @ requests w
            \<and> (0 < n \<longrightarrow> \<not> is_course_already_attempted cur w)"
    and "dom (scrape_attempts (db w)) \<subseteq> dom (scrape_attempts (db w'))"
    and "cur \<le> cur'"
    and "scraping_complete (scrape_metadata (db w')) = scraping_complete (scrape_metadata (db w))"
    and "conn_open w' = conn_open w"
    and "last_scraped_id (scrape_metadata (db w')) = last_scraped_id (scrape_metadata (db w))
           \<or> (last_scraped_id (scrape_metadata (db w')) = cur \<and> cur' = cur + 1)"
    and "clock w \<le> clock w'"
proof -
  let ?g = "await_rate_limit cfg w"
  note g = await_rate_limit_effect[where cfg = cfg and w = w]
  have "(\<exists>n. requests w' = replicate n cur @ requests w
            \<and> (0 < n \<longrightarrow> \<not> is_course_already_attempted cur w))
    \<and> dom (scrape_attempts (db w)) \<subseteq> dom (scrape_attempts (db w'))
    \<and> cur \<le> cur'
    \<and> scraping_complete (scrape_metadata (db w')) = scraping_complete (scrape_metadata (db w))
    \<and> conn_open w' = conn_open w
    \<and> (last_scraped_id (scrape_metadata (db w')) = last_scraped_id (scrape_metadata (db w))
           \<or> (last_scraped_id (scrape_metadata (db w')) = cur \<and> cur' = cur + 1))
    \<and> clock w \<le> clock w'"
  using it
  proof (cases rule: scrape_iteration_cases)
    case skip
    then show ?thesis by (auto intro: exI[of _ 0])
  next
    case (raised e)
    note fe = fetch_course_effect[OF raised(5)]
    from fetch_effect_requests[OF fe] obtain n where "requests w' = replicate n cur @ requests w"
      using g(1) by auto
    with raised fetch_effect_ledgers[OF fe] g show ?thesis by auto
  next
    case (handled r w2 w3)
    note fe = fetch_course_effect[OF handled(4)]
    note hr = handle_result_effect[OF handled(5)]
    note ep = end_of_pass_effect[where i = "cur + 1" and w = w3]
    from fetch_effect_requests[OF fe] obtain n where n: "requests w2 = replicate n cur @ requests w"
      using g(1) by auto
    from hr(5) obtain row where row: "scrape_attempts (db w3) = (scrape_attempts (db w2))(cur \<mapsto> row)"
      by blast
    have "requests w' = replicate n cur @ requests w" using n hr(1) ep(1) handled(6) by simp
    moreover have "dom (scrape_attempts (db w)) \<subseteq> dom (scrape_attempts (db w'))"
      using row fetch_effect_ledgers(2)[OF fe] g(5) ep(5) handled(6) by auto
    moreover have "scraping_complete (scrape_metadata (db w')) = scraping_complete (scrape_metadata (db w))"
      using hr(8) fetch_effect_ledgers(1)[OF fe] g(4) ep(4) handled(6) by simp
    moreover have "conn_open w' = conn_open w"
      using hr(3) fetch_effect_ledgers(3)[OF fe] g(2) ep(2) handled(6) by simp
    moreover have "last_scraped_id (scrape_metadata (db w')) = cur"
      using hr(6) ep(4) handled(6) by simp
    moreover have "clock w \<le> clock w'"
      using hr(2) fetch_effect_ledgers(4)[OF fe] g(3) ep(3) handled(6)
      by (simp add: REQUEST_DELAY_SECONDS_def)
    ultimately show ?thesis using handled(1,3) by auto
  qed
  then show "\<exists>n. requests w' = replicate n cur @ requests w
            \<and> (0 < n \<longrightarrow> \<not> is_course_already_attempted cur w)"
    and "dom (scrape_attempts (db w)) \<subseteq> dom (scrape_attempts (db w'))"
    and "cur \<le> cur'"
    and "scraping_complete (scrape_metadata (db w')) = scraping_complete (scrape_metadata (db w))"
    and "conn_open w' = conn_open w"
    and "last_scraped_id (scrape_metadata (db w')) = last_scraped_id (scrape_metadata (db w))
           \<or> (last_scraped_id (scrape_metadata (db w')) = cur \<and> cur' = cur + 1)"
    and "clock w \<le> clock w'"
    by blast+
qed

lemma scrape_iteration_next:
  "scrape_iteration rem cfg (cur, c, w) = (None, (cur', c', w')) \<Longrightarrow> cur' = cur + 1"
  by (erule scrape_iteration_cases) auto

lemma loop_effect_refl: "loop_effect st st"
  by (cases st) (auto simp: loop_effect_def intro: exI[of _ "[]"])

lemma loop_effect_iteration:
  assumes "scrape_iteration rem cfg st = (x, st')"
  shows "loop_effect st st'"
proof -
  obtain cur c w where st: "st = (cur, c, w)" by (cases st)
  obtain cur' c' w' where st': "st' = (cur', c', w')" by (cases st')
  note e = scrape_iteration_effect[OF assms[unfolded st st']]
  from e(1) obtain n where n: "requests w' = replicate n cur @ requests w"
    "0 < n \<longrightarrow> \<not> is_course_already_attempted cur w" by blast
  have "\<forall>i \<in> set (replicate n cur). cur \<le> i \<and> \<not> is_course_already_attempted i w"
    using n(2) by auto
  with n(1) have "\<exists>new. requests w' = new @ requests w
           \<and> (\<forall>i \<in> set new. cur \<le> i \<and> \<not> is_course_already_attempted i w)" by blast
  with e(2-7) show ?thesis unfolding loop_effect_def st st' by auto
qed

lemma loop_effect_trans:
  assumes "loop_effect st1 st2" "loop_effect st2 st3"
  shows "loop_effect st1 st3"
proof -
  obtain c1 k1 w1 where s1: "st1 = (c1, k1, w1)" by (cases st1)
  obtain c2 k2 w2 where s2: "st2 = (c2, k2, w2)" by (cases st2)
  obtain c3 k3 w3 where s3: "st3 = (c3, k3, w3)" by (cases st3)
  from assms(1) obtain n1 where n1: "requests w2 = n1 @ requests w1"
    "\<forall>i \<in> set n1. c1 \<le> i \<and> \<not> is_course_already_attempted i w1"
    unfolding loop_effect_def s1 s2 by auto
  from assms(2) obtain n2 where n2: "requests w3 = n2 @ requests w2"
    "\<forall>i \<in> set n2. c2 \<le> i \<and> \<not> is_course_already_attempted i w2"
    unfolding loop_effect_def s2 s3 by auto
  from assms have rest1: "dom (scrape_attempts (db w1)) \<subseteq> dom (scrape_attempts (db w2))" "c1 \<le> c2"
    and rest2: "dom (scrape_attempts (db w2)) \<subseteq> dom (scrape_attempts (db w3))" "c2 \<le> c3"
    unfolding loop_effect_def s1 s2 s3 by auto
  have "\<forall>i \<in> set n2. c1 \<le> i \<and> \<not> is_course_already_attempted i w1"
    using n2(2) rest1 by (fastforce simp: is_course_already_attempted_def)
  with n1 n2 have "requests w3 = (n2 @ n1) @ requests w1
      \<and> (\<forall>i \<in> set (n2 @ n1). c1 \<le> i \<and> \<not> is_course_already_attempted i w1)" by auto
  then have "\<exists>new. requests w3 = new @ requests w1
           \<and> (\<forall>i \<in> set new. c1 \<le> i \<and> \<not> is_course_already_attempted i w1)" by blast
  with assms rest1 rest2 show ?thesis unfolding loop_effect_def s1 s2 s3 by auto
qed

lemma scrape_loop_effect:
  "scrape_loop fuel rem cfg st = (e, st') \<Longrightarrow> loop_effect st st'"
proof (induction fuel arbitrary: st)
  case 0
  obtain cur c w where st: "st = (cur, c, w)" by (cases st)
  from 0 have "st' = st" unfolding st by (auto split: if_splits)
  then show ?case by (simp add: loop_effect_refl)
next
  case (Suc n)
  obtain cur c w where st: "st = (cur, c, w)" by (cases st)
  show ?case
  proof (cases "c < CONSECUTIVE_404_LIMIT cfg")
    case False
    with Suc.prems have "st' = st" unfolding st by auto
    then show ?thesis by (simp add: loop_effect_refl)
  next
    case True
    obtain x st1 where it: "scrape_iteration rem cfg st = (x, st1)"
      by (cases "scrape_iteration rem cfg st") auto
    note e1 = loop_effect_iteration[OF it]
    show ?thesis
    proof (cases x)
      case None
      with Suc.prems True it have "scrape_loop n rem cfg st1 = (e, st')" unfolding st by simp
      from loop_effect_trans[OF e1 Suc.IH[OF this]] show ?thesis .
    next
      case (Some ex)
      with Suc.prems True it have "st' = st1" unfolding st by simp
      with e1 show ?thesis by simp
    qed
  qed
qed

lemma scrape_loop_exit:
  "scrape_loop fuel rem cfg st = (LoopExit, (cur', c', w')) \<Longrightarrow> CONSECUTIVE_404_LIMIT cfg \<le> c'"
proof (induction fuel arbitrary: st)
  case 0
  obtain cur c w where st: "st = (cur, c, w)" by (cases st)
  from 0 show ?case unfolding st by (auto split: if_splits)
next
  case (Suc n)
  obtain cur c w where st: "st = (cur, c, w)" by (cases st)
  from Suc.prems Suc.IH show ?case unfolding st
    by (auto split: if_splits prod.splits option.splits)
qed

lemma scrape_effect:
  assumes "scrape fuel rem cfg w = (r, w')"
  shows "\<exists>new. requests w' = new @ requests w
           \<and> (\<forall>i \<in> set new. last_scraped_id (scrape_metadata (db w)) < i
                 \<and> \<not> is_course_already_attempted i w)"
    and "last_scraped_id (scrape_metadata (db w)) \<le> last_scraped_id (scrape_metadata (db w'))"
    and "conn_open w' = conn_open w"
proof -
  let ?m = "scrape_metadata (db w)"
  have "(\<exists>new. requests w' = new @ requests w
           \<and> (\<forall>i \<in> set new. last_scraped_id ?m < i \<and> \<not> is_course_already_attempted i w))
     \<and> last_scraped_id ?m \<le> last_scraped_id (scrape_metadata (db w'))
     \<and> conn_open w' = conn_open w"
  proof (cases "scraping_complete ?m")
    case True
    with assms have "w' = w" by (simp add: scrape_def get_scrape_metadata_def)
    then show ?thesis by (auto intro: exI[of _ "[]"])
  next
    case False
    obtain e cur' c' w1 where lp: "scrape_loop fuel rem cfg
        (last_scraped_id ?m + 1, consecutive_404s ?m, w) = (e, (cur', c', w1))"
      by (metis prod.exhaust)
    from scrape_loop_effect[OF lp] obtain new where new: "requests w1 = new @ requests w"
      "\<forall>i \<in> set new. last_scraped_id ?m + 1 \<le> i \<and> \<not> is_course_already_attempted i w"
      and ls: "last_scraped_id ?m \<le> last_scraped_id (scrape_metadata (db w1))"
      and co: "conn_open w1 = conn_open w"
      unfolding loop_effect_def by auto
    have w': "w' = w1 \<or> w' = update_scrape_metadata (no_kwargs\<lparr>kw_scraping_complete := Some True\<rparr>) w1"
      using assms False lp by (cases e) (auto simp: scrape_def get_scrape_metadata_def Let_def)
    have "requests w' = new @ requests w" using w' new(1) by (auto simp: db_op_defs)
    moreover have "\<forall>i \<in> set new. last_scraped_id ?m < i \<and> \<not> is_course_already_attempted i w"
      using new(2) by auto
    moreover have "last_scraped_id ?m \<le> last_scraped_id (scrape_metadata (db w'))"
      using w' ls by (auto simp: db_op_defs set_clauses_def no_kwargs_def)
    moreover have "conn_open w' = conn_open w" using w' co by (auto simp: db_op_defs)
    ultimately show ?thesis by blast
  qed
  then show "\<exists>new. requests w' = new @ requests w
           \<and> (\<forall>i \<in> set new. last_scraped_id (scrape_metadata (db w)) < i
                 \<and> \<not> is_course_already_attempted i w)"
    and "last_scraped_id (scrape_metadata (db w)) \<le> last_scraped_id (scrape_metadata (db w'))"
    and "conn_open w' = conn_open w"
    by blast+
qed

lemma fetch_attempts_raises:
  "fetch_attempts rem cid as w = (Inl e, w') \<Longrightarrow>
     e = ValueError ''Invalid API key''
     \<and> (\<exists>rq b. requests w' = cid # rq \<and> rem cid (count_list rq cid) = Response 401 b)"
proof (induction as arbitrary: w)
  case Nil
  then show ?case by simp
next
  case (Cons a rest)
  let ?w1 = "w\<lparr>requests := cid # requests w\<rparr>"
  show ?case
  proof (cases "rem cid (count_list (requests w) cid)")
    case RequestException
    with Cons.prems
    have "fetch_attempts rem cid rest (sleep (seconds (RETRY_DELAY_SECONDS * int a)) ?w1) = (Inl e, w')"
      by (simp add: session_get_def split: if_splits)
    from Cons.IH[OF this] show ?thesis .
  next
    case (Response sc body)
    let ?w2 = "record_api_call ?w1"
    have step: "fetch_attempts rem cid (a # rest) w =
        (if sc = 200 then (Inr (Some body), ?w2)
          else if sc = 404 then (Inr None, ?w2)
          else if sc = 401 then (Inl (ValueError ''Invalid API key''), ?w2)
          else if sc = 429 then
            fetch_attempts rem cid rest (sleep (seconds RATE_LIMIT_SLEEP_SECONDS) ?w2)
          else if a < RETRY_MAX_ATTEMPTS then
            fetch_attempts rem cid rest
              (sleep (seconds (RETRY_DELAY_SECONDS * int a)) ?w2)
          else (Inr None, ?w2))"
      using Response by (simp add: session_get_def Let_def)
    show ?thesis
    proof (cases "sc = 200 \<or> sc = 404")
      case True
      with Cons.prems step show ?thesis by auto
    next
      case nf: False
      show ?thesis
      proof (cases "sc = 401")
        case True
        with nf Cons.prems step have "w' = ?w2" "e = ValueError ''Invalid API key''" by simp_all
        moreover have "requests ?w2 = cid # requests w" by (simp add: db_op_defs)
        ultimately show ?thesis using Response True by blast
      next
        case na: False
        show ?thesis
        proof (cases "sc = 429")
          case True
          with nf na Cons.prems step
          have "fetch_attempts rem cid rest (sleep (seconds RATE_LIMIT_SLEEP_SECONDS) ?w2) = (Inl e, w')"
            by simp
          from Cons.IH[OF this] show ?thesis .
        next
          case nt: False
          show ?thesis
          proof (cases "a < RETRY_MAX_ATTEMPTS")
            case True
            with nf na nt Cons.prems step
            have "fetch_attempts rem cid rest (sleep (seconds (RETRY_DELAY_SECONDS * int a)) ?w2) = (Inl e, w')"
              by simp
            from Cons.IH[OF this] show ?thesis .
          next
            case False
            with nf na nt Cons.prems step show ?thesis by simp
          qed
        qed
      qed
    qed
  qed
qed

lemma scrape_iteration_raised:
  assumes "scrape_iteration rem cfg (cur, c, w) = (Some e, (cur', c', w'))"
  shows "cur' = cur" "c' = c" "e = ValueError ''Invalid API key''"
    "\<exists>rq. requests w' = cur # rq" "\<not> is_course_already_attempted cur w'"
    "scrape_metadata (db w') = scrape_metadata (db w)"
    "scrape_attempts (db w') = scrape_attempts (db w)"
proof -
  from assms have na: "\<not> is_course_already_attempted cur w" and cc: "cur' = cur" "c' = c"
    and f: "fetch_course rem cur (await_rate_limit cfg w) = (Inl e, w')"
    by (auto elim!: scrape_iteration_cases)
  note fe = fetch_effect_ledgers[OF fetch_course_effect[OF f]]
  note g = await_rate_limit_effect[where cfg = cfg and w = w]
  from f fetch_attempts_raises[of rem cur _ "await_rate_limit cfg w" e w']
  have r: "e = ValueError ''Invalid API key''" "\<exists>rq. requests w' = cur # rq"
    unfolding fetch_course_def by blast+
  show "cur' = cur" "c' = c" by fact+
  show "e = ValueError ''Invalid API key''" "\<exists>rq. requests w' = cur # rq" by fact+
  show "scrape_metadata (db w') = scrape_metadata (db w)"
    "scrape_attempts (db w') = scrape_attempts (db w)" using fe g by simp_all
  then show "\<not> is_course_already_attempted cur w'"
    using na by (simp add: is_course_already_attempted_def)
qed

lemma scrape_loop_raised:
  "scrape_loop fuel rem cfg st = (LoopRaised e, (cur', c', w')) \<Longrightarrow>
     (\<exists>rq. requests w' = cur' # rq) \<and> \<not> is_course_already_attempted cur' w'"
proof (induction fuel arbitrary: st)
  case 0
  obtain cur c w where st: "st = (cur, c, w)" by (cases st)
  from 0 show ?case unfolding st by (auto split: if_splits)
next
  case (Suc n)
  obtain cur c w where st: "st = (cur, c, w)" by (cases st)
  obtain x st1 where it: "scrape_iteration rem cfg (cur, c, w) = (x, st1)"
    by (cases "scrape_iteration rem cfg (cur, c, w)") auto
  show ?case
  proof (cases x)
    case None
    with Suc.prems it have "scrape_loop n rem cfg st1 = (LoopRaised e, (cur', c', w'))"
      unfolding st by (auto split: if_splits)
    from Suc.IH[OF this] show ?thesis .
  next
    case (Some ex)
    with Suc.prems it have "st1 = (cur', c', w')" "ex = e"
      unfolding st by (auto split: if_splits)
    with it Some have "scrape_iteration rem cfg (cur, c, w) = (Some e, (cur', c', w'))" by simp
    from scrape_iteration_raised[OF this] show ?thesis by simp
  qed
qed


lemma fetch_effect_course_tables:
  assumes "fetch_effect rem cid m w w'"
  shows "course_tables (db w') = course_tables (db w)"
proof -
  from assms have fr: "(db w')\<lparr>api_calls := []\<rparr> = (db w)\<lparr>api_calls := []\<rparr>"
    unfolding fetch_effect_def by blast
  from arg_cong[OF fr, of course_tables] show ?thesis by (simp add: course_tables_def)
qed

lemma await_rate_limit_course_tables:
  "course_tables (db (await_rate_limit cfg w)) = course_tables (db w)"
  using arg_cong[OF await_rate_limit_effect(6)[of cfg w], of course_tables]
  by (simp add: course_tables_def)








lemma insert_holes_ok:
  "1 \<le> n \<Longrightarrow> n + int (length hs) \<le> 19 \<Longrightarrow> \<forall>h \<in> set hs. hole_binds h \<Longrightarrow>
     fst (insert_holes tid n hs t) = None"
  by (induction hs arbitrary: n t) auto

lemma insert_tees_ok:
  assumes "g \<in> {''male'', ''female''}"
    and "\<forall>tee \<in> set ts. j_tee_name tee \<noteq> None \<and> ratings_bind (j_ratings tee)
           \<and> length (j_holes tee) \<le> 18 \<and> (\<forall>h \<in> set (j_holes tee). hole_binds h)"
  shows "fst (insert_tees cid g ts t) = None"
  using assms(2)
proof (induction ts arbitrary: t)
  case Nil
  show ?case by simp
next
  case (Cons tee rest)
  from Cons.prems obtain name where nm: "j_tee_name tee = Some name"
    and rb: "ratings_bind (j_ratings tee)"
    and ln: "length (j_holes tee) \<le> 18"
    and hb: "\<forall>h \<in> set (j_holes tee). hole_binds h" by auto
  define t1 where "t1 = t\<lparr>tees := tees t @ [\<lparr>tee_id = tees_seq t + 1, tee_course_id = cid, gender = g,
                                            tee_name = name, ratings = j_ratings tee\<rparr>],
                       tees_seq := tees_seq t + 1\<rparr>"
  obtain y t2 where ih: "insert_holes (tees_seq t + 1) 1 (j_holes tee) t1 = (y, t2)"
    by (cases "insert_holes (tees_seq t + 1) 1 (j_holes tee) t1") auto
  from insert_holes_ok[of 1 "j_holes tee" "tees_seq t + 1" t1] ln hb ih have y: "y = None" by simp
  have "insert_tees cid g (tee # rest) t = insert_tees cid g rest t2"
    using nm rb assms(1) ih y by (simp add: Let_def t1_def del: insert_iff)
  with Cons.IH[of t2] Cons.prems show ?case by simp
qed

lemma save_course_ok:
  assumes "well_formed cd"
  shows "fst (save_course cd w) = None"
proof -
  from assms obtain c where c: "j_course cd = Some c"
    and ji: "case j_id c of None \<Rightarrow> False | Some i \<Rightarrow> i \<noteq> 0 \<and> int64 i"
    and cn: "j_club_name c \<noteq> JNull" and nm: "j_course_name c \<noteq> JNull"
    and lb: "case j_location c of None \<Rightarrow> True | Some loc \<Rightarrow> location_binds loc"
    and tt: "\<forall>tee \<in> set (j_tees_male c @ j_tees_female c).
                j_tee_name tee \<noteq> None \<and> ratings_bind (j_ratings tee)
                \<and> length (j_holes tee) \<le> 18
                \<and> (\<forall>h \<in> set (j_holes tee). hole_binds h)"
    by (cases "j_course cd") (simp_all add: well_formed_def)
  from ji obtain cid where cid: "j_id c = Some cid" "cid \<noteq> 0" and i64: "int64 cid"
    by (cases "j_id c") simp_all
  from tt have tm: "\<forall>tee \<in> set (j_tees_male c). j_tee_name tee \<noteq> None \<and> ratings_bind (j_ratings tee)
           \<and> length (j_holes tee) \<le> 18 \<and> (\<forall>h \<in> set (j_holes tee). hole_binds h)"
    and tf: "\<forall>tee \<in> set (j_tees_female c). j_tee_name tee \<noteq> None \<and> ratings_bind (j_ratings tee)
           \<and> length (j_holes tee) \<le> 18 \<and> (\<forall>h \<in> set (j_holes tee). hole_binds h)"
    by auto
  from cn obtain a where a: "not_null_text (j_club_name c) = Some a" by (cases "j_club_name c") auto
  from nm obtain b where b: "not_null_text (j_course_name c) = Some b" by (cases "j_course_name c") auto
  have ic: "fst (insert_course cid c t) = None" for t
    using i64 a b by (simp add: insert_course_def)
  have il: "fst (insert_location cid c t) = None" for t
    using lb by (cases "j_location c") (simp_all add: insert_location_def)
  have g: "fst (insert_genders cid [(''male'', j_tees_male c), (''female'', j_tees_female c)] t) = None" for t
  proof -
    obtain y1 t1 where m: "insert_tees cid ''male'' (j_tees_male c) t = (y1, t1)"
      by (cases "insert_tees cid ''male'' (j_tees_male c) t") auto
    from insert_tees_ok[of "''male''" "j_tees_male c" cid t] tm m have y1: "y1 = None" by simp
    obtain y2 t2 where f: "insert_tees cid ''female'' (j_tees_female c) t1 = (y2, t2)"
      by (cases "insert_tees cid ''female'' (j_tees_female c) t1") auto
    from insert_tees_ok[of "''female''" "j_tees_female c" cid t1] tf f have y2: "y2 = None" by simp
    from m y1 f y2 show ?thesis by simp
  qed
  have "fst (save_course_body cd now t) = None" for now t
  proof -
    obtain x1 t1 where i1: "insert_course cid c t = (x1, t1)" by (metis prod.exhaust)
    obtain x2 t2 where i2: "insert_location cid c t1 = (x2, t2)" by (metis prod.exhaust)
    obtain x3 t3 where i3: "insert_genders cid
        [(''male'', j_tees_male c), (''female'', j_tees_female c)] t2 = (x3, t3)"
      by (metis prod.exhaust)
    from ic[of t] i1 have x1: "x1 = None" by simp
    from il[of t1] i2 have x2: "x2 = None" by simp
    from g[of t2] i3 have x3: "x3 = None" by simp
    from c cid i1 i2 i3 x1 x2 x3 show ?thesis
      by (simp add: save_course_body_def Let_def del: insert_genders.simps)
  qed
  then have "fst (save_course_body cd (clock w) (db w)) = None" .
  then show ?thesis
    by (cases "save_course_body cd (clock w) (db w)") (simp add: save_course_def transaction_def)
qed

lemma attempts_list: "[1 ..< RETRY_MAX_ATTEMPTS + 1] = [1, 2, 3]"
  by code_simp

lemma window_count_le_length: "get_api_calls_in_window w \<le> int (length (api_calls (db w)))"
  by (simp add: get_api_calls_in_window_def)

lemma fetch_course_200:
  assumes "rem cur (count_list (requests w) cur) = Response 200 p"
  shows "fetch_course rem cur w = (Inr (Some p), record_api_call (w\<lparr>requests := cur # requests w\<rparr>))"
  using assms unfolding fetch_course_def attempts_list by (simp add: session_get_def)

lemma fetch_course_404:
  assumes "rem cur (count_list (requests w) cur) = Response 404 b"
  shows "fetch_course rem cur w = (Inr None, record_api_call (w\<lparr>requests := cur # requests w\<rparr>))"
  using assms unfolding fetch_course_def attempts_list by (simp add: session_get_def)

lemma fetch_course_429_200:
  assumes "rem cur (count_list (requests w) cur) = Response 429 b"
    and "rem cur (Suc (count_list (requests w) cur)) = Response 200 p"
  shows "fetch_course rem cur w =
     (Inr (Some p),
      record_api_call ((sleep (seconds RATE_LIMIT_SLEEP_SECONDS)
         (record_api_call (w\<lparr>requests := cur # requests w\<rparr>)))
           \<lparr>requests := cur # cur # requests w\<rparr>))"
  using assms unfolding fetch_course_def attempts_list by (simp add: session_get_def db_op_defs)

lemma pass_with_payload:
  assumes na: "\<not> is_course_already_attempted cur w"
    and f: "fetch_course rem cur (await_rate_limit cfg w) = (Inr (Some p), w2)"
    and wf: "well_formed p" and nm: "(cur + 1) mod 100 \<noteq> 0"
  obtains w' where "scrape_iteration rem cfg (cur, c, w) = (None, (cur + 1, 0, w'))"
    and "last_scraped_id (scrape_metadata (db w')) = cur"
    and "consecutive_404s (scrape_metadata (db w')) = 0"
    and "total_courses_scraped (scrape_metadata (db w'))
           = total_courses_scraped (scrape_metadata (db w2)) + 1"
    and "scrape_attempts (db w') = (scrape_attempts (db w2))
           (cur \<mapsto> \<lparr>status_code = 200, success = True\<rparr>)"
    and "api_calls (db w') = api_calls (db w2)"
    and "clock w' = clock w2 + REQUEST_DELAY_SECONDS"
    and "requests w' = requests w2"
proof -
  obtain x ws where sv: "save_course p w2 = (x, ws)" by (metis prod.exhaust)
  with save_course_ok[OF wf, of w2] have x: "x = None" by simp
  note cm = save_course_commit[OF sv[unfolded x]]
  from wf have tr: "truthy (Some p)" by (auto simp: well_formed_def truthy_def split: option.splits)
  define w' where "w' = sleep REQUEST_DELAY_SECONDS (update_scrape_metadata
      (no_kwargs\<lparr>kw_last_scraped_id := Some cur, kw_consecutive_404s := Some 0\<rparr>)
      (record_scrape_attempt cur 200 True ws))"
  have hr: "handle_result cur c (Some p) w2 = (0, update_scrape_metadata
      (no_kwargs\<lparr>kw_last_scraped_id := Some cur, kw_consecutive_404s := Some 0\<rparr>)
      (record_scrape_attempt cur 200 True ws))"
    using tr sv x by (simp add: handle_result_def)
  have "scrape_iteration rem cfg (cur, c, w) = (None, (cur + 1, 0, w'))"
    using na f hr nm by (simp add: scrape_iteration_def w'_def Let_def)
  moreover have "last_scraped_id (scrape_metadata (db w')) = cur"
    "consecutive_404s (scrape_metadata (db w')) = 0"
    "total_courses_scraped (scrape_metadata (db w'))
           = total_courses_scraped (scrape_metadata (db w2)) + 1"
    using cm by (simp_all add: w'_def db_op_defs set_clauses_def no_kwargs_def)
  moreover have "scrape_attempts (db w') = (scrape_attempts (db w2))
           (cur \<mapsto> \<lparr>status_code = 200, success = True\<rparr>)"
    "api_calls (db w') = api_calls (db w2)"
    "clock w' = clock w2 + REQUEST_DELAY_SECONDS" "requests w' = requests w2"
    using cm by (simp_all add: w'_def db_op_defs)
  ultimately show ?thesis using that by blast
qed

lemma pass_absent:
  assumes na: "\<not> is_course_already_attempted cur w"
    and f: "fetch_course rem cur (await_rate_limit cfg w) = (Inr None, w2)"
    and nm: "(cur + 1) mod 100 \<noteq> 0"
  obtains w' where "scrape_iteration rem cfg (cur, c, w) = (None, (cur + 1, c + 1, w'))"
    and "last_scraped_id (scrape_metadata (db w')) = cur"
    and "consecutive_404s (scrape_metadata (db w')) = c + 1"
    and "total_courses_scraped (scrape_metadata (db w'))
           = total_courses_scraped (scrape_metadata (db w2))"
    and "scrape_attempts (db w') = (scrape_attempts (db w2))
           (cur \<mapsto> \<lparr>status_code = 404, success = False\<rparr>)"
    and "api_calls (db w') = api_calls (db w2)"
    and "clock w' = clock w2 + REQUEST_DELAY_SECONDS"
    and "requests w' = requests w2"
proof -
  define w' where "w' = sleep REQUEST_DELAY_SECONDS (update_scrape_metadata
      (no_kwargs\<lparr>kw_last_scraped_id := Some cur, kw_consecutive_404s := Some (c + 1)\<rparr>)
      (record_scrape_attempt cur 404 False w2))"
  have hr: "handle_result cur c None w2 = (c + 1, update_scrape_metadata
      (no_kwargs\<lparr>kw_last_scraped_id := Some cur, kw_consecutive_404s := Some (c + 1)\<rparr>)
      (record_scrape_attempt cur 404 False w2))"
    by (simp add: handle_result_def truthy_def Let_def)
  have "scrape_iteration rem cfg (cur, c, w) = (None, (cur + 1, c + 1, w'))"
    using na f hr nm by (simp add: scrape_iteration_def w'_def Let_def)
  moreover have "last_scraped_id (scrape_metadata (db w')) = cur"
    "consecutive_404s (scrape_metadata (db w')) = c + 1"
    "total_courses_scraped (scrape_metadata (db w'))
           = total_courses_scraped (scrape_metadata (db w2))"
    by (simp_all add: w'_def db_op_defs set_clauses_def no_kwargs_def)
  moreover have "scrape_attempts (db w') = (scrape_attempts (db w2))
           (cur \<mapsto> \<lparr>status_code = 404, success = False\<rparr>)"
    "api_calls (db w') = api_calls (db w2)"
    "clock w' = clock w2 + REQUEST_DELAY_SECONDS" "requests w' = requests w2"
    by (simp_all add: w'_def db_op_defs)
  ultimately show ?thesis using that by blast
qed

lemma limiter_open:
  assumes "int (length (api_calls (db w))) < MAX_CALLS_PER_DAY cfg"
  shows "await_rate_limit cfg w = w"
  using assms window_count_le_length[of w]
  by (simp add: await_rate_limit_def check_rate_limit_def)

lemma scrape_loop_pass:
  assumes "c < CONSECUTIVE_404_LIMIT cfg" "scrape_iteration rem cfg (cur, c, w) = (None, st)"
  shows "scrape_loop (Suc n) rem cfg (cur, c, w) = scrape_loop n rem cfg st"
  using assms by simp

lemma scrape_loop_out_of_fuel:
  assumes "c < CONSECUTIVE_404_LIMIT cfg"
  shows "scrape_loop 0 rem cfg (cur, c, w) = (LoopOutOfFuel, (cur, c, w))"
  using assms by simp




lemma scrape_iteration_step:
  assumes "\<not> is_course_already_attempted cur u"
  shows "scrape_iteration rem cfg (cur, c, u) =
     (case fetch_course rem cur (await_rate_limit cfg u) of
        (Inl e, u2) \<Rightarrow> (Some e, (cur, c, u2))
      | (Inr r2, u2) \<Rightarrow>
          (case handle_result cur c r2 u2 of
             (c2, u3) \<Rightarrow> (None, (cur + 1, c2, end_of_pass (cur + 1) u3))))"
  using assms
  by (simp add: scrape_iteration_def end_of_pass_def Let_def split: prod.splits sum.splits)



lemma scrape_loop_out_of_fuel_below:
  "scrape_loop k rem cfg st = (LoopOutOfFuel, (cur, c, u)) \<Longrightarrow> c < CONSECUTIVE_404_LIMIT cfg"
proof (induction k arbitrary: st)
  case 0
  obtain cur0 c0 w0 where st: "st = (cur0, c0, w0)" by (cases st)
  from 0 show ?case unfolding st by (auto split: if_splits)
next
  case (Suc k)
  obtain cur0 c0 w0 where st: "st = (cur0, c0, w0)" by (cases st)
  from Suc.prems Suc.IH show ?case unfolding st
    by (auto split: if_splits prod.splits option.splits)
qed

lemma scrape_loop_append:
  "scrape_loop k rem cfg st0 = (LoopOutOfFuel, st) \<Longrightarrow>
     scrape_loop (k + m) rem cfg st0 = scrape_loop m rem cfg st"
proof (induction k arbitrary: st0)
  case 0
  obtain cur0 c0 w0 where st0: "st0 = (cur0, c0, w0)" by (cases st0)
  from 0 have "st = st0" unfolding st0 by (auto split: if_splits)
  then show ?case by simp
next
  case (Suc k)
  obtain cur0 c0 w0 where st0: "st0 = (cur0, c0, w0)" by (cases st0)
  from Suc.prems have lt: "c0 < CONSECUTIVE_404_LIMIT cfg"
    unfolding st0 by (auto split: if_splits)
  obtain x st1 where it: "scrape_iteration rem cfg (cur0, c0, w0) = (x, st1)"
    by (metis prod.exhaust)
  from Suc.prems lt it have x: "x = None" and rest: "scrape_loop k rem cfg st1 = (LoopOutOfFuel, st)"
    unfolding st0 by (auto split: option.splits)
  have "scrape_loop (Suc k + m) rem cfg st0 = scrape_loop (k + m) rem cfg st1"
    unfolding st0 using lt it x by simp
  with Suc.IH[OF rest] show ?case by simp
qed

lemma pass_raises:
  assumes "\<not> is_course_already_attempted cur u"
    and "fetch_course rem cur (await_rate_limit cfg u) = (Inl e, u2)"
  shows "scrape_iteration rem cfg (cur, c, u) = (Some e, (cur, c, u2))"
  using assms by (simp add: scrape_iteration_step)

lemma loop_raises:
  assumes "c < CONSECUTIVE_404_LIMIT cfg" "\<not> is_course_already_attempted cur u"
    and "fetch_course rem cur (await_rate_limit cfg u) = (Inl e, u2)"
  shows "scrape_loop (Suc n) rem cfg (cur, c, u) = (LoopRaised e, (cur, c, u2))"
  using assms(1) pass_raises[OF assms(2,3), of c] by simp

lemma fetch_course_401:
  assumes "rem cur (count_list (requests w) cur) = Response 401 b"
  shows "fetch_course rem cur w =
     (Inl (ValueError ''Invalid API key''), record_api_call (w\<lparr>requests := cur # requests w\<rparr>))"
  using assms unfolding fetch_course_def attempts_list by (simp add: session_get_def)

lemma loop_exit_after_pass:
  assumes "c < CONSECUTIVE_404_LIMIT cfg"
    and "scrape_iteration rem cfg (cur, c, u) = (None, (cur', c', u'))"
    and "CONSECUTIVE_404_LIMIT cfg \<le> c'"
  shows "scrape_loop (Suc n) rem cfg (cur, c, u) = (LoopExit, (cur', c', u'))"
proof -
  have "scrape_loop (Suc n) rem cfg (cur, c, u) = scrape_loop n rem cfg (cur', c', u')"
    using assms(1,2) by simp
  also have "\<dots> = (LoopExit, (cur', c', u'))" using assms(3) by simp
  finally show ?thesis .
qed

lemma scrape_loop_end:
  "scrape_loop fuel rem cfg st = (e, (cur', c', u')) \<Longrightarrow>
     (e = LoopExit) = (CONSECUTIVE_404_LIMIT cfg \<le> c')"
proof (induction fuel arbitrary: st)
  case 0
  obtain cur c w where st: "st = (cur, c, w)" by (cases st)
  from 0 show ?case unfolding st by (auto split: if_splits)
next
  case (Suc n)
  obtain cur c w where st: "st = (cur, c, w)" by (cases st)
  show ?case
  proof (cases "c < CONSECUTIVE_404_LIMIT cfg")
    case False
    with Suc.prems show ?thesis unfolding st by auto
  next
    case True
    obtain x st1 where it: "scrape_iteration rem cfg (cur, c, w) = (x, st1)"
      by (metis prod.exhaust)
    show ?thesis
    proof (cases x)
      case None
      with Suc.prems True it have "scrape_loop n rem cfg st1 = (e, (cur', c', u'))"
        unfolding st by simp
      from Suc.IH[OF this] show ?thesis .
    next
      case (Some ex)
      with Suc.prems True it have e: "e = LoopRaised ex" and s1: "st1 = (cur', c', u')"
        unfolding st by simp_all
      from it[unfolded Some s1] have "c' = c" by (rule scrape_iteration_raised(2))
      with True e show ?thesis by simp
    qed
  qed
qed

section \<open>Resuming\<close>

text \<open>
  Claim C1. A pass of the loop at an id that has a row in \<^verbatim>\<open>scrape_attempts\<close> moves the
  cursor on and changes nothing else: no request, no look at the rate limiter, no sleep.
  Every request made by a call of \<^verbatim>\<open>scrape\<close>, however it ends, is for an id above the
  \<^verbatim>\<open>last_scraped_id\<close> it started from that had no row in \<^verbatim>\<open>scrape_attempts\<close> then.
  The same holds from any point of the loop on: the requests that follow are for ids
  from the cursor on that have no row at that point.
  With rows for 1 to 100 and \<^verbatim>\<open>last_scraped_id\<close> 100, no id up to 100 is requested and
  the first request is for 101.
\<close>

theorem idempotent_resume:
  "(is_course_already_attempted cur w \<longrightarrow>
      scrape_iteration rem cfg (cur, c, w) = (None, (cur + 1, c, w)))
   \<and> (scrape fuel rem cfg w = (r, w') \<longrightarrow>
        (\<exists>new. requests w' = new @ requests w
           \<and> (\<forall>i \<in> set new. last_scraped_id (scrape_metadata (db w)) < i
                 \<and> \<not> is_course_already_attempted i w)))
   \<and> (scrape_loop fuel rem cfg (cur, c, w) = (e, (cur', c', w')) \<longrightarrow>
        (\<exists>new. requests w' = new @ requests w
           \<and> (\<forall>i \<in> set new. cur \<le> i \<and> \<not> is_course_already_attempted i w)))"
proof (intro conjI impI)
  assume "is_course_already_attempted cur w"
  then show "scrape_iteration rem cfg (cur, c, w) = (None, (cur + 1, c, w))"
    by (simp add: scrape_iteration_def)
next
  assume "scrape fuel rem cfg w = (r, w')"
  from scrape_effect(1)[OF this]
  show "\<exists>new. requests w' = new @ requests w
           \<and> (\<forall>i \<in> set new. last_scraped_id (scrape_metadata (db w)) < i
                 \<and> \<not> is_course_already_attempted i w)" .
next
  assume "scrape_loop fuel rem cfg (cur, c, w) = (e, (cur', c', w'))"
  from scrape_loop_effect[OF this]
  show "\<exists>new. requests w' = new @ requests w
           \<and> (\<forall>i \<in> set new. cur \<le> i \<and> \<not> is_course_already_attempted i w)"
    unfolding loop_effect_def by simp
qed

theorem idempotent_resume_witness:
  "last_scraped_id (scrape_metadata (db resumed_world)) = 100
   \<and> is_course_already_attempted 100 resumed_world
   \<and> scrape_iteration remote_404 small_config (100, 0, resumed_world) = (None, (101, 0, resumed_world))
   \<and> requests (snd (scrape 5 remote_404 small_config resumed_world)) = [102, 101]
   \<and> (\<exists>new. requests (snd (scrape 5 remote_404 small_config resumed_world)) = new @ requests resumed_world
           \<and> (\<forall>i \<in> set new. 100 < i \<and> \<not> is_course_already_attempted i resumed_world))
   \<and> (\<exists>new. requests (snd (snd (snd (scrape_loop 5 remote_404 small_config (100, 0, resumed_world)))))
                = new @ requests resumed_world
           \<and> (\<forall>i \<in> set new. 100 \<le> i \<and> \<not> is_course_already_attempted i resumed_world))"
proof -
  let ?s = "scrape 5 remote_404 small_config resumed_world"
  let ?l = "scrape_loop 5 remote_404 small_config (100, 0, resumed_world)"
  have h1: "is_course_already_attempted 100 resumed_world" by code_simp
  have h2: "last_scraped_id (scrape_metadata (db resumed_world)) = 100" by code_simp
  have h3: "requests (snd ?s) = [102, 101]" by code_simp
  have h4: "?s = (fst ?s, snd ?s)" by simp
  have h5: "?l = (fst ?l, (fst (snd ?l), fst (snd (snd ?l)), snd (snd (snd ?l))))" by simp
  note t = idempotent_resume[where cur = 100 and w = resumed_world and rem = remote_404
      and cfg = small_config and c = 0 and fuel = 5 and r = "fst ?s" and w' = "snd ?s"]
  note u = idempotent_resume[where cur = 100 and w = resumed_world and rem = remote_404
      and cfg = small_config and c = 0 and fuel = 5 and e = "fst ?l" and cur' = "fst (snd ?l)"
      and c' = "fst (snd (snd ?l))" and w' = "snd (snd (snd ?l))"]
  from t h1 have a: "scrape_iteration remote_404 small_config (100, 0, resumed_world)
      = (None, (100 + 1, 0, resumed_world))" by blast
  from t h4 have b: "\<exists>new. requests (snd ?s) = new @ requests resumed_world
           \<and> (\<forall>i \<in> set new. last_scraped_id (scrape_metadata (db resumed_world)) < i
                 \<and> \<not> is_course_already_attempted i resumed_world)" by blast
  from u h5 have d: "\<exists>new. requests (snd (snd (snd ?l))) = new @ requests resumed_world
           \<and> (\<forall>i \<in> set new. 100 \<le> i \<and> \<not> is_course_already_attempted i resumed_world)"
    by blast
  from h2 h1 a h3 b[unfolded h2] d show ?thesis by simp
qed

section \<open>The quota\<close>




section \<open>Throttling\<close>

text \<open>
  Claim C3, as amended. A 429 response at an attempt makes the fetcher record the call,
  sleep the fixed cooldown \<^verbatim>\<open>RATE_LIMIT_SLEEP_SECONDS\<close>, whatever the number of the
  attempt, and go on with the attempts that remain, for the same id: the throttled attempt
  is one of the \<^verbatim>\<open>RETRY_MAX_ATTEMPTS\<close> attempts. A call of \<^verbatim>\<open>fetch_course\<close> makes at
  most \<^verbatim>\<open>RETRY_MAX_ATTEMPTS\<close> requests, all for its id.
\<close>

theorem throttled_retry:
  "(rem cid (count_list (requests w) cid) = Response 429 body \<longrightarrow>
      fetch_attempts rem cid (a # rest) w =
        fetch_attempts rem cid rest
          (sleep (seconds RATE_LIMIT_SLEEP_SECONDS)
             (record_api_call (w\<lparr>requests := cid # requests w\<rparr>))))
   \<and> (fetch_course rem cid v = (r, v') \<longrightarrow>
        (\<exists>n \<le> RETRY_MAX_ATTEMPTS. requests v' = replicate n cid @ requests v))"
proof (intro conjI impI)
  assume "rem cid (count_list (requests w) cid) = Response 429 body"
  then show "fetch_attempts rem cid (a # rest) w =
        fetch_attempts rem cid rest
          (sleep (seconds RATE_LIMIT_SLEEP_SECONDS)
             (record_api_call (w\<lparr>requests := cid # requests w\<rparr>)))"
    by (simp add: session_get_def)
next
  assume "fetch_course rem cid v = (r, v')"
  from fetch_effect_requests[OF fetch_course_effect[OF this]]
  show "\<exists>n \<le> RETRY_MAX_ATTEMPTS. requests v' = replicate n cid @ requests v" .
qed

theorem throttled_retry_witness:
  "fetch_attempts remote_throttle_two_errors 1 [1, 2, 3] fresh_world =
     fetch_attempts remote_throttle_two_errors 1 [2, 3]
       (sleep (seconds RATE_LIMIT_SLEEP_SECONDS) (record_api_call (fresh_world\<lparr>requests := [1]\<rparr>)))
   \<and> clock (sleep (seconds RATE_LIMIT_SLEEP_SECONDS) (record_api_call (fresh_world\<lparr>requests := [1]\<rparr>)))
       = 3600000000
   \<and> (\<exists>n \<le> RETRY_MAX_ATTEMPTS.
        requests (snd (fetch_course remote_throttle_two_errors 1 fresh_world))
          = replicate n 1 @ requests fresh_world)"
proof -
  let ?f = "fetch_course remote_throttle_two_errors 1 fresh_world"
  have h: "remote_throttle_two_errors 1 (count_list (requests fresh_world) 1) = Response 429 absent_body"
    by code_simp
  have q: "requests fresh_world = []" by code_simp
  have ck: "clock (sleep (seconds RATE_LIMIT_SLEEP_SECONDS) (record_api_call (fresh_world\<lparr>requests := [1]\<rparr>)))
       = 3600000000" by code_simp
  have p: "?f = (fst ?f, snd ?f)" by simp
  note t = throttled_retry[where rem = remote_throttle_two_errors and cid = 1 and w = fresh_world
      and body = absent_body and a = 1 and rest = "[2, 3]" and v = fresh_world
      and r = "fst ?f" and v' = "snd ?f"]
  from t h have a: "fetch_attempts remote_throttle_two_errors 1 [1, 2, 3] fresh_world =
     fetch_attempts remote_throttle_two_errors 1 [2, 3]
       (sleep (seconds RATE_LIMIT_SLEEP_SECONDS) (record_api_call (fresh_world\<lparr>requests := [1]\<rparr>)))"
    unfolding q by blast
  from t p have b: "\<exists>n \<le> RETRY_MAX_ATTEMPTS. requests (snd ?f) = replicate n 1 @ requests fresh_world"
    by blast
  from a ck b show ?thesis by blast
qed

text \<open>
  Claim C3 as stated fails: with no throttling, two transient errors leave a third
  attempt, which succeeds here; after one throttled attempt the same two transient errors
  use up the attempts, and the request that would succeed is never made.
\<close>

theorem throttle_consumes_attempt_counterexample:
  "fst (fetch_course remote_two_errors 1 fresh_world) = Inr (Some (good_payload 1))
   \<and> requests (snd (fetch_course remote_two_errors 1 fresh_world)) = [1, 1, 1]
   \<and> fst (fetch_course remote_throttle_two_errors 1 fresh_world) = Inr None
   \<and> requests (snd (fetch_course remote_throttle_two_errors 1 fresh_world)) = [1, 1, 1]
   \<and> remote_throttle_two_errors 1 3 = Response 200 (good_payload 1)"
  by code_simp

section \<open>Authentication failure\<close>

text \<open>
  Claim C4, as amended. A 401 response, at whichever attempt it comes, makes
  \<^verbatim>\<open>fetch_course\<close> raise at once: the request and its call record are made, and no
  sleep and no further request follow. When the fetch of a pass raises, the pass raises
  with it: the cursor and the counter stay as they are, no row is written in
  \<^verbatim>\<open>scrape_attempts\<close> for the id, and the metadata row and the attempts are as they
  were before the pass; so it is when the first answer to the id is a 401. The loop then
  stops at that pass, at whatever point of the run it comes and whatever fuel is left,
  \<^verbatim>\<open>scrape\<close> raises the same exception, and \<^verbatim>\<open>main\<close> exits with 1, the connection
  closed. When \<^verbatim>\<open>scrape\<close> has raised, the id requested last is without an attempt row
  and above \<^verbatim>\<open>last_scraped_id\<close>. (A 403 response is not among the statuses that
  raise.)
\<close>

theorem auth_failure_aborts:
  "(rem cid (count_list (requests w) cid) = Response 401 body \<longrightarrow>
      fetch_attempts rem cid (a # rest) w =
        (Inl (ValueError ''Invalid API key''), record_api_call (w\<lparr>requests := cid # requests w\<rparr>)))
   \<and> (\<not> is_course_already_attempted cur u
        \<and> fetch_course rem cur (await_rate_limit cfg u) = (Inl e, u2) \<longrightarrow>
        scrape_iteration rem cfg (cur, c, u) = (Some e, (cur, c, u2))
        \<and> \<not> is_course_already_attempted cur u2
        \<and> scrape_metadata (db u2) = scrape_metadata (db u)
        \<and> scrape_attempts (db u2) = scrape_attempts (db u))
   \<and> (\<not> is_course_already_attempted cur u
        \<and> rem cur (count_list (requests u) cur) = Response 401 body \<longrightarrow>
        scrape_iteration rem cfg (cur, c, u) =
          (Some (ValueError ''Invalid API key''),
           (cur, c, record_api_call ((await_rate_limit cfg u)\<lparr>requests := cur # requests u\<rparr>))))
   \<and> (scrape_loop k rem cfg st0 = (LoopOutOfFuel, (cur, c, u))
        \<and> \<not> is_course_already_attempted cur u
        \<and> fetch_course rem cur (await_rate_limit cfg u) = (Inl e, u2) \<longrightarrow>
        scrape_loop (k + Suc n) rem cfg st0 = (LoopRaised e, (cur, c, u2)))
   \<and> (\<not> scraping_complete (scrape_metadata (db (Database v0)))
        \<and> scrape_loop k rem cfg
             (last_scraped_id (scrape_metadata (db (Database v0))) + 1,
              consecutive_404s (scrape_metadata (db (Database v0))), Database v0)
            = (LoopOutOfFuel, (cur, c, u))
        \<and> \<not> is_course_already_attempted cur u
        \<and> fetch_course rem cur (await_rate_limit cfg u) = (Inl e, u2) \<longrightarrow>
        scrape (k + Suc n) rem cfg (Database v0) = (Raised e, u2)
        \<and> (validate cfg = None \<longrightarrow>
              main (k + Suc n) rem cfg v0 = (Some 1, close u2) \<and> \<not> conn_open (close u2)))
   \<and> (scrape fuel rem cfg v = (Raised e, v') \<longrightarrow>
        \<not> is_course_already_attempted (hd (requests v')) v'
        \<and> last_scraped_id (scrape_metadata (db v')) < hd (requests v'))
   \<and> (validate cfg = None \<and> scrape fuel rem cfg (Database v) = (Raised e, v') \<longrightarrow>
        main fuel rem cfg v = (Some 1, close v') \<and> \<not> conn_open (close v'))"
proof (intro conjI impI)
  assume "rem cid (count_list (requests w) cid) = Response 401 body"
  then show "fetch_attempts rem cid (a # rest) w =
        (Inl (ValueError ''Invalid API key''), record_api_call (w\<lparr>requests := cid # requests w\<rparr>))"
    by (simp add: session_get_def)
next
  assume a: "\<not> is_course_already_attempted cur u
        \<and> fetch_course rem cur (await_rate_limit cfg u) = (Inl e, u2)"
  then have na: "\<not> is_course_already_attempted cur u"
    and f: "fetch_course rem cur (await_rate_limit cfg u) = (Inl e, u2)" by blast+
  show it: "scrape_iteration rem cfg (cur, c, u) = (Some e, (cur, c, u2))"
    by (rule pass_raises[OF na f])
  note r = scrape_iteration_raised[OF it]
  from r(5,6,7) show "\<not> is_course_already_attempted cur u2"
    "scrape_metadata (db u2) = scrape_metadata (db u)"
    "scrape_attempts (db u2) = scrape_attempts (db u)" .
next
  assume a: "\<not> is_course_already_attempted cur u
        \<and> rem cur (count_list (requests u) cur) = Response 401 body"
  then have na: "\<not> is_course_already_attempted cur u"
    and r: "rem cur (count_list (requests (await_rate_limit cfg u)) cur) = Response 401 body"
    by (simp_all add: await_rate_limit_effect(1))
  have "fetch_course rem cur (await_rate_limit cfg u) =
      (Inl (ValueError ''Invalid API key''),
       record_api_call ((await_rate_limit cfg u)\<lparr>requests := cur # requests (await_rate_limit cfg u)\<rparr>))"
    using r by (rule fetch_course_401[where rem = rem and cur = cur and b = body])
  from pass_raises[OF na this, of c]
  show "scrape_iteration rem cfg (cur, c, u) =
          (Some (ValueError ''Invalid API key''),
           (cur, c, record_api_call ((await_rate_limit cfg u)\<lparr>requests := cur # requests u\<rparr>)))"
    by (simp add: await_rate_limit_effect(1))
next
  assume a: "scrape_loop k rem cfg st0 = (LoopOutOfFuel, (cur, c, u))
        \<and> \<not> is_course_already_attempted cur u
        \<and> fetch_course rem cur (await_rate_limit cfg u) = (Inl e, u2)"
  then have l: "scrape_loop k rem cfg st0 = (LoopOutOfFuel, (cur, c, u))"
    and na: "\<not> is_course_already_attempted cur u"
    and f: "fetch_course rem cur (await_rate_limit cfg u) = (Inl e, u2)" by blast+
  from scrape_loop_append[OF l, of "Suc n"]
    loop_raises[OF scrape_loop_out_of_fuel_below[OF l] na f, of n]
  show "scrape_loop (k + Suc n) rem cfg st0 = (LoopRaised e, (cur, c, u2))" by simp
next
  let ?v = "Database v0"
  assume a: "\<not> scraping_complete (scrape_metadata (db ?v))
        \<and> scrape_loop k rem cfg
             (last_scraped_id (scrape_metadata (db ?v)) + 1,
              consecutive_404s (scrape_metadata (db ?v)), ?v)
            = (LoopOutOfFuel, (cur, c, u))
        \<and> \<not> is_course_already_attempted cur u
        \<and> fetch_course rem cur (await_rate_limit cfg u) = (Inl e, u2)"
  then have nc: "\<not> scraping_complete (scrape_metadata (db ?v))"
    and l: "scrape_loop k rem cfg
             (last_scraped_id (scrape_metadata (db ?v)) + 1,
              consecutive_404s (scrape_metadata (db ?v)), ?v)
            = (LoopOutOfFuel, (cur, c, u))"
    and na: "\<not> is_course_already_attempted cur u"
    and f: "fetch_course rem cur (await_rate_limit cfg u) = (Inl e, u2)" by blast+
  have lr: "scrape_loop (k + Suc n) rem cfg
             (last_scraped_id (scrape_metadata (db ?v)) + 1,
              consecutive_404s (scrape_metadata (db ?v)), ?v) = (LoopRaised e, (cur, c, u2))"
    using scrape_loop_append[OF l, of "Suc n"]
      loop_raises[OF scrape_loop_out_of_fuel_below[OF l] na f, of n] by simp
  show s: "scrape (k + Suc n) rem cfg ?v = (Raised e, u2)"
    using nc lr by (simp add: scrape_def get_scrape_metadata_def del: scrape_loop.simps)
  assume "validate cfg = None"
  with nc s show "main (k + Suc n) rem cfg v0 = (Some 1, close u2)"
    by (simp add: main_def get_scrape_metadata_def Let_def)
  show "\<not> conn_open (close u2)" by (simp add: close_def)
next
  assume s: "scrape fuel rem cfg v = (Raised e, v')"
  let ?m = "scrape_metadata (db v)"
  from s have nc: "\<not> scraping_complete ?m"
    by (auto simp: scrape_def get_scrape_metadata_def)
  obtain le cur' c' w1 where lp: "scrape_loop fuel rem cfg
        (last_scraped_id ?m + 1, consecutive_404s ?m, v) = (le, (cur', c', w1))"
    by (metis prod.exhaust)
  with s nc have le: "le = LoopRaised e" and w1: "w1 = v'"
    by (cases le; simp add: scrape_def get_scrape_metadata_def)+
  from scrape_loop_raised[OF lp[unfolded le]] w1
  have hd: "hd (requests v') = cur'" and na: "\<not> is_course_already_attempted cur' v'" by auto
  from scrape_loop_effect[OF lp] w1
  have "last_scraped_id (scrape_metadata (db v')) < cur'"
    unfolding loop_effect_def by auto
  with hd na show "\<not> is_course_already_attempted (hd (requests v')) v'"
    "last_scraped_id (scrape_metadata (db v')) < hd (requests v')" by simp_all
next
  assume a: "validate cfg = None \<and> scrape fuel rem cfg (Database v) = (Raised e, v')"
  then have nc: "\<not> scraping_complete (scrape_metadata (db (Database v)))"
    by (auto simp: scrape_def get_scrape_metadata_def)
  with a show "main fuel rem cfg v = (Some 1, close v')"
    by (simp add: main_def get_scrape_metadata_def Let_def)
  show "\<not> conn_open (close v')" by (simp add: close_def)
qed

theorem auth_failure_aborts_witness:
  "fetch_attempts remote_401 2 [1, 2, 3] fresh_world =
     (Inl (ValueError ''Invalid API key''), record_api_call (fresh_world\<lparr>requests := [2]\<rparr>))
   \<and> fst (scrape_loop 1 remote_401 small_config (1, 0, Database fresh_world)) = LoopOutOfFuel
   \<and> fst (snd (scrape_loop 1 remote_401 small_config (1, 0, Database fresh_world))) = 2
   \<and> scrape_iteration remote_401 small_config
        (2, 1, snd (snd (snd (scrape_loop 1 remote_401 small_config (1, 0, Database fresh_world)))))
      = (Some (ValueError ''Invalid API key''),
         (2, 1, snd (fetch_course remote_401 2 (await_rate_limit small_config
            (snd (snd (snd (scrape_loop 1 remote_401 small_config (1, 0, Database fresh_world)))))))))
   \<and> scrape (1 + Suc 3) remote_401 small_config (Database fresh_world)
      = (Raised (ValueError ''Invalid API key''),
         snd (fetch_course remote_401 2 (await_rate_limit small_config
            (snd (snd (snd (scrape_loop 1 remote_401 small_config (1, 0, Database fresh_world))))))))
   \<and> main (1 + Suc 3) remote_401 small_config fresh_world
      = (Some 1, close (snd (fetch_course remote_401 2 (await_rate_limit small_config
            (snd (snd (snd (scrape_loop 1 remote_401 small_config (1, 0, Database fresh_world)))))))))
   \<and> requests (snd (scrape 5 remote_401 small_config (Database fresh_world))) = [2, 1]
   \<and> \<not> is_course_already_attempted 2 (snd (scrape 5 remote_401 small_config (Database fresh_world)))
   \<and> last_scraped_id (scrape_metadata (db (snd (scrape 5 remote_401 small_config (Database fresh_world))))) < 2
   \<and> main 5 remote_401 small_config fresh_world =
        (Some 1, close (snd (scrape 5 remote_401 small_config (Database fresh_world))))"
proof -
  let ?e = "ValueError ''Invalid API key''"
  let ?s = "scrape 5 remote_401 small_config (Database fresh_world)"
  let ?l = "scrape_loop 1 remote_401 small_config (1, 0, Database fresh_world)"
  let ?u = "snd (snd (snd ?l))"
  let ?f = "fetch_course remote_401 2 (await_rate_limit small_config ?u)"
  have s1: "fst ?s = Raised ?e" by code_simp
  then have s: "?s = (Raised ?e, snd ?s)" by (metis prod.collapse)
  have l1: "fst ?l = LoopOutOfFuel" "fst (snd ?l) = 2" "fst (snd (snd ?l)) = 1" by code_simp+
  have l: "?l = (LoopOutOfFuel, (2, 1, ?u))"
    using l1 by (metis prod.collapse)
  have m: "last_scraped_id (scrape_metadata (db (Database fresh_world))) + 1 = 1"
    "consecutive_404s (scrape_metadata (db (Database fresh_world))) = 0"
    "\<not> scraping_complete (scrape_metadata (db (Database fresh_world)))" by code_simp+
  have l': "scrape_loop 1 remote_401 small_config
      (last_scraped_id (scrape_metadata (db (Database fresh_world))) + 1,
       consecutive_404s (scrape_metadata (db (Database fresh_world))), Database fresh_world)
      = (LoopOutOfFuel, (2, 1, ?u))"
    unfolding m(1,2) by (rule l)
  have na: "\<not> is_course_already_attempted 2 ?u" by code_simp
  have f1: "fst ?f = Inl ?e" by code_simp
  then have f: "?f = (Inl ?e, snd ?f)" by (metis prod.collapse)
  have v: "validate small_config = None" by code_simp
  have r: "remote_401 2 (count_list (requests fresh_world) 2) = Response 401 absent_body" by code_simp
  have q: "requests fresh_world = []" by code_simp
  have h: "requests (snd ?s) = [2, 1]" by code_simp
  then have h': "hd (requests (snd ?s)) = 2" by simp
  note t = auth_failure_aborts[where rem = remote_401 and cid = 2 and w = fresh_world
      and body = absent_body and a = 1 and rest = "[2, 3]" and cfg = small_config
      and cur = 2 and c = 1 and u = ?u and e = ?e and ?u2.0 = "snd ?f"
      and k = 1 and ?st0.0 = "(1, 0, Database fresh_world)" and n = 3 and ?v0.0 = fresh_world
      and fuel = 5 and v = fresh_world and v' = "snd ?s"]
  from t r have a: "fetch_attempts remote_401 2 [1, 2, 3] fresh_world =
     (Inl ?e, record_api_call (fresh_world\<lparr>requests := [2]\<rparr>))" unfolding q by blast
  from t na f have b: "scrape_iteration remote_401 small_config (2, 1, ?u) = (Some ?e, (2, 1, snd ?f))"
    by blast
  from t m(3) l' na f v have c: "scrape (1 + Suc 3) remote_401 small_config (Database fresh_world)
      = (Raised ?e, snd ?f)"
    "main (1 + Suc 3) remote_401 small_config fresh_world = (Some 1, close (snd ?f))"
    by blast+
  from t v s have d: "main 5 remote_401 small_config fresh_world = (Some 1, close (snd ?s))" by blast
  have g: "\<not> is_course_already_attempted 2 (snd ?s)
      \<and> last_scraped_id (scrape_metadata (db (snd ?s))) < 2"
  proof -
    have "scrape 5 remote_401 small_config (Database fresh_world) = (Raised ?e, snd ?s) \<longrightarrow>
        \<not> is_course_already_attempted (hd (requests (snd ?s))) (snd ?s)
        \<and> last_scraped_id (scrape_metadata (db (snd ?s))) < hd (requests (snd ?s))"
      using auth_failure_aborts[where rem = remote_401 and cfg = small_config and e = ?e
        and fuel = 5 and v = "Database fresh_world" and v' = "snd ?s"] by blast
    with s show ?thesis unfolding h' by blast
  qed
  from a l1(1,2) b c h g d show ?thesis by blast
qed

text \<open>
  Claim C4 as stated fails for 403: the status is retried as an unexpected one, with
  three requests, and the id is then recorded as attempted and the position advanced;
  the run ends with status 0.
\<close>

theorem forbidden_is_retried_counterexample:
  "fst (scrape_iteration remote_403 small_config (1, 0, fresh_world)) = None
   \<and> requests (snd (snd (snd (scrape_iteration remote_403 small_config (1, 0, fresh_world))))) = [1, 1, 1]
   \<and> is_course_already_attempted 1
        (snd (snd (snd (scrape_iteration remote_403 small_config (1, 0, fresh_world)))))
   \<and> last_scraped_id (scrape_metadata (db
        (snd (snd (snd (scrape_iteration remote_403 small_config (1, 0, fresh_world))))))) = 1
   \<and> fst (main 5 remote_403 small_config fresh_world) = Some 0"
  by code_simp

section \<open>The end of the crawl\<close>

text \<open>
  Claim C5. Once \<^verbatim>\<open>consecutive_404s\<close> has reached the limit the loop stops, with no
  further pass, whatever fuel is left; the loop ends in this way only at the limit, and
  \<^verbatim>\<open>scrape\<close> then sets \<^verbatim>\<open>scraping_complete\<close>. In particular a pass that brings the
  counter to the limit is the last one, at whatever point of the run it comes: the loop
  ends there, \<^verbatim>\<open>scrape\<close> returns and the flag is set; and however the loop ends, it
  ends as finished exactly when the counter is at the limit. A call of \<^verbatim>\<open>scrape\<close> on a store
  whose \<^verbatim>\<open>scraping_complete\<close> is set returns with the world as it was (no request, no
  write), and \<^verbatim>\<open>main\<close> on it only opens and closes the connection and exits with 0.
\<close>

theorem termination_and_noop:
  "(CONSECUTIVE_404_LIMIT cfg \<le> c \<longrightarrow>
      scrape_loop fuel rem cfg (cur, c, w) = (LoopExit, (cur, c, w)))
   \<and> (\<not> scraping_complete (scrape_metadata (db w))
        \<and> scrape_loop fuel rem cfg
            (last_scraped_id (scrape_metadata (db w)) + 1,
             consecutive_404s (scrape_metadata (db w)), w) = (LoopExit, (cur', c', w1)) \<longrightarrow>
        CONSECUTIVE_404_LIMIT cfg \<le> c'
        \<and> scrape fuel rem cfg w =
            (Returned, update_scrape_metadata (no_kwargs\<lparr>kw_scraping_complete := Some True\<rparr>) w1)
        \<and> scraping_complete (scrape_metadata (db (snd (scrape fuel rem cfg w)))))
   \<and> (scraping_complete (scrape_metadata (db w)) \<longrightarrow>
        scrape fuel rem cfg w = (Returned, w)
        \<and> (validate cfg = None \<longrightarrow> main fuel rem cfg w = (Some 0, w\<lparr>conn_open := False\<rparr>)))
   \<and> (scrape_loop fuel rem cfg st = (e, (cur', c', w1)) \<longrightarrow>
        (e = LoopExit) = (CONSECUTIVE_404_LIMIT cfg \<le> c'))
   \<and> (k0 < CONSECUTIVE_404_LIMIT cfg
        \<and> scrape_iteration rem cfg (p, k0, u) = (None, (p2, k2, u2))
        \<and> CONSECUTIVE_404_LIMIT cfg \<le> k2 \<longrightarrow>
        scrape_loop (Suc n) rem cfg (p, k0, u) = (LoopExit, (p2, k2, u2)))
   \<and> (scrape_loop m rem cfg st0 = (LoopOutOfFuel, (p, k0, u))
        \<and> scrape_iteration rem cfg (p, k0, u) = (None, (p2, k2, u2))
        \<and> CONSECUTIVE_404_LIMIT cfg \<le> k2 \<longrightarrow>
        scrape_loop (m + Suc n) rem cfg st0 = (LoopExit, (p2, k2, u2)))
   \<and> (\<not> scraping_complete (scrape_metadata (db v))
        \<and> scrape_loop m rem cfg
             (last_scraped_id (scrape_metadata (db v)) + 1,
              consecutive_404s (scrape_metadata (db v)), v) = (LoopOutOfFuel, (p, k0, u))
        \<and> scrape_iteration rem cfg (p, k0, u) = (None, (p2, k2, u2))
        \<and> CONSECUTIVE_404_LIMIT cfg \<le> k2 \<longrightarrow>
        scrape (m + Suc n) rem cfg v =
          (Returned, update_scrape_metadata (no_kwargs\<lparr>kw_scraping_complete := Some True\<rparr>) u2)
        \<and> scraping_complete (scrape_metadata (db (snd (scrape (m + Suc n) rem cfg v)))))
   \<and> (scrape fuel rem cfg v = (Returned, v') \<longrightarrow> scraping_complete (scrape_metadata (db v')))"
proof (intro conjI impI)
  assume "CONSECUTIVE_404_LIMIT cfg \<le> c"
  then show "scrape_loop fuel rem cfg (cur, c, w) = (LoopExit, (cur, c, w))" by simp
next
  assume a: "\<not> scraping_complete (scrape_metadata (db w))
        \<and> scrape_loop fuel rem cfg
            (last_scraped_id (scrape_metadata (db w)) + 1,
             consecutive_404s (scrape_metadata (db w)), w) = (LoopExit, (cur', c', w1))"
  then show "CONSECUTIVE_404_LIMIT cfg \<le> c'" using scrape_loop_exit by blast
  from a show s: "scrape fuel rem cfg w =
            (Returned, update_scrape_metadata (no_kwargs\<lparr>kw_scraping_complete := Some True\<rparr>) w1)"
    by (simp add: scrape_def get_scrape_metadata_def)
  show "scraping_complete (scrape_metadata (db (snd (scrape fuel rem cfg w))))"
    unfolding s by (simp add: db_op_defs set_clauses_def no_kwargs_def)
next
  assume a: "scraping_complete (scrape_metadata (db w))"
  then show "scrape fuel rem cfg w = (Returned, w)"
    by (simp add: scrape_def get_scrape_metadata_def)
  assume "validate cfg = None"
  with a show "main fuel rem cfg w = (Some 0, w\<lparr>conn_open := False\<rparr>)"
    by (simp add: main_def get_scrape_metadata_def Database_def close_def)
next
  assume "scrape_loop fuel rem cfg st = (e, (cur', c', w1))"
  then show "(e = LoopExit) = (CONSECUTIVE_404_LIMIT cfg \<le> c')" by (rule scrape_loop_end)
next
  assume "k0 < CONSECUTIVE_404_LIMIT cfg
        \<and> scrape_iteration rem cfg (p, k0, u) = (None, (p2, k2, u2))
        \<and> CONSECUTIVE_404_LIMIT cfg \<le> k2"
  then show "scrape_loop (Suc n) rem cfg (p, k0, u) = (LoopExit, (p2, k2, u2))"
    using loop_exit_after_pass by blast
next
  assume a: "scrape_loop m rem cfg st0 = (LoopOutOfFuel, (p, k0, u))
        \<and> scrape_iteration rem cfg (p, k0, u) = (None, (p2, k2, u2))
        \<and> CONSECUTIVE_404_LIMIT cfg \<le> k2"
  then have l: "scrape_loop m rem cfg st0 = (LoopOutOfFuel, (p, k0, u))"
    and it: "scrape_iteration rem cfg (p, k0, u) = (None, (p2, k2, u2))"
    and k: "CONSECUTIVE_404_LIMIT cfg \<le> k2" by blast+
  from scrape_loop_append[OF l, of "Suc n"]
    loop_exit_after_pass[OF scrape_loop_out_of_fuel_below[OF l] it k, of n]
  show "scrape_loop (m + Suc n) rem cfg st0 = (LoopExit, (p2, k2, u2))" by simp
next
  assume a: "\<not> scraping_complete (scrape_metadata (db v))
        \<and> scrape_loop m rem cfg
             (last_scraped_id (scrape_metadata (db v)) + 1,
              consecutive_404s (scrape_metadata (db v)), v) = (LoopOutOfFuel, (p, k0, u))
        \<and> scrape_iteration rem cfg (p, k0, u) = (None, (p2, k2, u2))
        \<and> CONSECUTIVE_404_LIMIT cfg \<le> k2"
  then have nc: "\<not> scraping_complete (scrape_metadata (db v))"
    and l: "scrape_loop m rem cfg
             (last_scraped_id (scrape_metadata (db v)) + 1,
              consecutive_404s (scrape_metadata (db v)), v) = (LoopOutOfFuel, (p, k0, u))"
    and it: "scrape_iteration rem cfg (p, k0, u) = (None, (p2, k2, u2))"
    and k: "CONSECUTIVE_404_LIMIT cfg \<le> k2" by blast+
  have le: "scrape_loop (m + Suc n) rem cfg
             (last_scraped_id (scrape_metadata (db v)) + 1,
              consecutive_404s (scrape_metadata (db v)), v) = (LoopExit, (p2, k2, u2))"
    using scrape_loop_append[OF l, of "Suc n"]
      loop_exit_after_pass[OF scrape_loop_out_of_fuel_below[OF l] it k, of n] by simp
  show s: "scrape (m + Suc n) rem cfg v =
          (Returned, update_scrape_metadata (no_kwargs\<lparr>kw_scraping_complete := Some True\<rparr>) u2)"
    using nc le by (simp add: scrape_def get_scrape_metadata_def del: scrape_loop.simps)
  show "scraping_complete (scrape_metadata (db (snd (scrape (m + Suc n) rem cfg v))))"
    unfolding s by (simp add: db_op_defs set_clauses_def no_kwargs_def)
next
  assume s: "scrape fuel rem cfg v = (Returned, v')"
  show "scraping_complete (scrape_metadata (db v'))"
  proof (cases "scraping_complete (scrape_metadata (db v))")
    case True
    with s show ?thesis by (simp add: scrape_def get_scrape_metadata_def)
  next
    case False
    obtain le q k1 w2 where lp: "scrape_loop fuel rem cfg
        (last_scraped_id (scrape_metadata (db v)) + 1,
         consecutive_404s (scrape_metadata (db v)), v) = (le, (q, k1, w2))"
      by (metis prod.exhaust)
    with s False have "v' = update_scrape_metadata (no_kwargs\<lparr>kw_scraping_complete := Some True\<rparr>) w2"
      by (cases le) (simp_all add: scrape_def get_scrape_metadata_def del: scrape_loop.simps)
    then show ?thesis by (simp add: db_op_defs set_clauses_def no_kwargs_def)
  qed
qed

theorem termination_and_noop_witness:
  "scrape_loop 5 remote_404 small_config (7, 2, fresh_world) = (LoopExit, (7, 2, fresh_world))
   \<and> fst (scrape_loop 5 remote_404 small_config (1, 0, fresh_world)) = LoopExit
   \<and> requests (snd (scrape 5 remote_404 small_config fresh_world)) = [2, 1]
   \<and> scraping_complete (scrape_metadata (db (snd (scrape 5 remote_404 small_config fresh_world))))
   \<and> scrape 5 remote_404 small_config (snd (scrape 5 remote_404 small_config fresh_world))
       = (Returned, snd (scrape 5 remote_404 small_config fresh_world))
   \<and> main 5 remote_404 small_config (snd (scrape 5 remote_404 small_config fresh_world))
       = (Some 0, (snd (scrape 5 remote_404 small_config fresh_world))\<lparr>conn_open := False\<rparr>)
   \<and> CONSECUTIVE_404_LIMIT small_config
        \<le> fst (snd (snd (scrape_loop 5 remote_404 small_config (1, 0, fresh_world))))
   \<and> fst (scrape_loop 1 remote_404 small_config (1, 0, fresh_world)) = LoopOutOfFuel
   \<and> fst (snd (snd (scrape_loop 1 remote_404 small_config (1, 0, fresh_world)))) = 1
   \<and> fst (snd (snd (scrape_iteration remote_404 small_config
        (2, 1, snd (snd (snd (scrape_loop 1 remote_404 small_config (1, 0, fresh_world)))))))) = 2
   \<and> fst (scrape_loop (Suc 3) remote_404 small_config
        (2, 1, snd (snd (snd (scrape_loop 1 remote_404 small_config (1, 0, fresh_world)))))) = LoopExit
   \<and> fst (scrape_loop (1 + Suc 3) remote_404 small_config (1, 0, fresh_world)) = LoopExit
   \<and> fst (scrape (1 + Suc 3) remote_404 small_config fresh_world) = Returned
   \<and> scraping_complete (scrape_metadata (db (snd
        (scrape (1 + Suc 3) remote_404 small_config fresh_world))))"
proof -
  let ?l = "scrape_loop 5 remote_404 small_config (1, 0, fresh_world)"
  let ?w = "snd (scrape 5 remote_404 small_config fresh_world)"
  let ?l1 = "scrape_loop 1 remote_404 small_config (1, 0, fresh_world)"
  let ?u = "snd (snd (snd ?l1))"
  let ?it = "scrape_iteration remote_404 small_config (2, 1, ?u)"
  let ?u2 = "snd (snd (snd ?it))"
  have k: "CONSECUTIVE_404_LIMIT small_config \<le> 2" by code_simp
  have k1: "1 < CONSECUTIVE_404_LIMIT small_config" by code_simp
  have m: "last_scraped_id (scrape_metadata (db fresh_world)) + 1 = 1"
    "consecutive_404s (scrape_metadata (db fresh_world)) = 0"
    "\<not> scraping_complete (scrape_metadata (db fresh_world))" by code_simp+
  have l: "fst ?l = LoopExit" by code_simp
  then have l': "?l = (LoopExit, (fst (snd ?l), fst (snd (snd ?l)), snd (snd (snd ?l))))"
    by (metis prod.collapse)
  have prem: "scrape_loop 5 remote_404 small_config
      (last_scraped_id (scrape_metadata (db fresh_world)) + 1,
       consecutive_404s (scrape_metadata (db fresh_world)), fresh_world)
      = (LoopExit, (fst (snd ?l), fst (snd (snd ?l)), snd (snd (snd ?l))))"
    unfolding m(1,2) by (rule l')
  have r: "requests ?w = [2, 1]" by code_simp
  have v: "validate small_config = None" by code_simp
  have a: "scrape_loop 5 remote_404 small_config (7, 2, fresh_world) = (LoopExit, (7, 2, fresh_world))"
    using termination_and_noop[of small_config 2 5 remote_404 7 fresh_world] k by blast
  have c: "scraping_complete (scrape_metadata (db ?w))"
    using termination_and_noop[of small_config 0 5 remote_404 0 fresh_world
      "fst (snd ?l)" "fst (snd (snd ?l))" "snd (snd (snd ?l))"] m(3) prem by blast
  have d: "scrape 5 remote_404 small_config ?w = (Returned, ?w)"
    "main 5 remote_404 small_config ?w = (Some 0, ?w\<lparr>conn_open := False\<rparr>)"
    using termination_and_noop[of small_config 0 5 remote_404 0 ?w] c v by blast+
  have f: "CONSECUTIVE_404_LIMIT small_config \<le> fst (snd (snd ?l))"
    using termination_and_noop[where cfg = small_config and fuel = 5 and rem = remote_404
      and st = "(1, 0, fresh_world)" and e = LoopExit and cur' = "fst (snd ?l)"
      and c' = "fst (snd (snd ?l))" and ?w1.0 = "snd (snd (snd ?l))"] l' by blast
  have o1: "fst ?l1 = LoopOutOfFuel" "fst (snd ?l1) = 2" "fst (snd (snd ?l1)) = 1" by code_simp+
  then have o: "?l1 = (LoopOutOfFuel, (2, 1, ?u))" by (metis prod.collapse)
  have o': "scrape_loop 1 remote_404 small_config
      (last_scraped_id (scrape_metadata (db fresh_world)) + 1,
       consecutive_404s (scrape_metadata (db fresh_world)), fresh_world)
      = (LoopOutOfFuel, (2, 1, ?u))"
    unfolding m(1,2) by (rule o)
  have i1: "fst ?it = None" "fst (snd ?it) = 3" "fst (snd (snd ?it)) = 2" by code_simp+
  then have i: "?it = (None, (3, 2, ?u2))" by (metis prod.collapse)
  note t = termination_and_noop[where cfg = small_config and rem = remote_404
      and ?k0.0 = 1 and p = 2 and u = ?u and ?p2.0 = 3 and ?k2.0 = 2 and ?u2.0 = ?u2
      and n = 3 and m = 1 and ?st0.0 = "(1, 0, fresh_world)" and v = fresh_world]
  from t k1 i k have g1: "scrape_loop (Suc 3) remote_404 small_config (2, 1, ?u)
      = (LoopExit, (3, 2, ?u2))" by blast
  from t o i k have g2: "scrape_loop (1 + Suc 3) remote_404 small_config (1, 0, fresh_world)
      = (LoopExit, (3, 2, ?u2))" by blast
  from t m(3) o' i k have g3: "scrape (1 + Suc 3) remote_404 small_config fresh_world =
          (Returned, update_scrape_metadata (no_kwargs\<lparr>kw_scraping_complete := Some True\<rparr>) ?u2)"
    "scraping_complete (scrape_metadata (db (snd
        (scrape (1 + Suc 3) remote_404 small_config fresh_world))))" by blast+
  from g1 have h1: "fst (scrape_loop (Suc 3) remote_404 small_config (2, 1, ?u)) = LoopExit"
    by (simp del: scrape_loop.simps)
  from g2 have h2: "fst (scrape_loop (1 + Suc 3) remote_404 small_config (1, 0, fresh_world)) = LoopExit"
    by (simp del: scrape_loop.simps)
  from g3(1) have h3: "fst (scrape (1 + Suc 3) remote_404 small_config fresh_world) = Returned"
    by simp
  from a l r c d f o1(1,3) i1(3) h1 h2 h3 g3(2) show ?thesis by blast
qed

section \<open>Saving a course\<close>

text \<open>
  Claim C6, as amended. When \<^verbatim>\<open>save_course\<close> raises, the world is exactly what it was
  before the call: the transaction is rolled back as a unit. In a pass of the loop whose
  fetch gives a payload that cannot be saved, whether a constraint of the schema or the
  binding of an integer outside the signed 64-bit range fails, the tables that hold the courses are as
  before the pass, so an id with no row there before has none after, and
  \<^verbatim>\<open>total_courses_scraped\<close> is unchanged; the engine records the attempt as
  \<^verbatim>\<open>(id, 200, False)\<close>, sets \<^verbatim>\<open>last_scraped_id\<close> to the id, and goes on to the next id
  with no exception.
\<close>

theorem atomic_save:
  "(save_course cd w = (Some e, w') \<longrightarrow> w' = w)
   \<and> (\<not> is_course_already_attempted cur v
        \<and> fetch_course rem cur (await_rate_limit cfg v) = (Inr (Some cd), v2)
        \<and> truthy (Some cd) \<and> fst (save_course cd v2) \<noteq> None \<longrightarrow>
        (\<exists>v3. scrape_iteration rem cfg (cur, c, v) = (None, (cur + 1, 0, v3))
           \<and> course_tables (db v3) = course_tables (db v)
           \<and> (\<forall>i. no_rows_for i (db v) \<longrightarrow> no_rows_for i (db v3))
           \<and> total_courses_scraped (scrape_metadata (db v3))
               = total_courses_scraped (scrape_metadata (db v))
           \<and> scrape_attempts (db v3) = (scrape_attempts (db v))
               (cur \<mapsto> \<lparr>status_code = 200, success = False\<rparr>)
           \<and> last_scraped_id (scrape_metadata (db v3)) = cur))"
proof (intro conjI impI)
  assume "save_course cd w = (Some e, w')"
  then show "w' = w" by (rule save_course_rollback)
next
  assume a: "\<not> is_course_already_attempted cur v
        \<and> fetch_course rem cur (await_rate_limit cfg v) = (Inr (Some cd), v2)
        \<and> truthy (Some cd) \<and> fst (save_course cd v2) \<noteq> None"
  then have na: "\<not> is_course_already_attempted cur v"
    and f: "fetch_course rem cur (await_rate_limit cfg v) = (Inr (Some cd), v2)"
    and tr: "truthy (Some cd)" and sv: "fst (save_course cd v2) \<noteq> None" by blast+
  from sv obtain ex ws where s: "save_course cd v2 = (Some ex, ws)"
    by (cases "save_course cd v2") auto
  then have ws: "ws = v2" by (rule save_course_rollback)
  define va where "va = record_scrape_attempt cur 200 False v2"
  define vb where "vb = update_scrape_metadata
                 (no_kwargs\<lparr>kw_last_scraped_id := Some cur, kw_consecutive_404s := Some 0\<rparr>) va"
  define v3 where "v3 = end_of_pass (cur + 1) vb"
  have hr: "handle_result cur c (Some cd) v2 = (0, vb)"
    using tr s ws by (simp add: handle_result_def va_def vb_def)
  have it: "scrape_iteration rem cfg (cur, c, v) = (None, (cur + 1, 0, v3))"
    using na f hr by (simp add: scrape_iteration_def v3_def end_of_pass_def Let_def)
  note fe = fetch_course_effect[OF f]
  have ct2: "course_tables (db v2) = course_tables (db v)"
    using fetch_effect_course_tables[OF fe] await_rate_limit_course_tables by simp
  have ct3: "course_tables (db v3) = course_tables (db v2)"
    by (simp add: v3_def vb_def va_def end_of_pass_def Let_def db_op_defs course_tables_def)
  have ct: "course_tables (db v3) = course_tables (db v)" using ct2 ct3 by simp
  have m2: "scrape_metadata (db v2) = scrape_metadata (db v)"
    and a2: "scrape_attempts (db v2) = scrape_attempts (db v)"
    using fetch_effect_ledgers[OF fe] await_rate_limit_effect[where cfg = cfg and w = v] by simp_all
  have tot: "total_courses_scraped (scrape_metadata (db v3))
               = total_courses_scraped (scrape_metadata (db v))"
    using m2 by (simp add: v3_def vb_def va_def end_of_pass_def Let_def db_op_defs
        set_clauses_def no_kwargs_def)
  have att: "scrape_attempts (db v3) = (scrape_attempts (db v))
               (cur \<mapsto> \<lparr>status_code = 200, success = False\<rparr>)"
    using a2 by (simp add: v3_def vb_def va_def end_of_pass_def Let_def db_op_defs)
  have last: "last_scraped_id (scrape_metadata (db v3)) = cur"
    by (simp add: v3_def vb_def va_def end_of_pass_def Let_def db_op_defs
        set_clauses_def no_kwargs_def)
  have nr: "\<forall>i. no_rows_for i (db v) \<longrightarrow> no_rows_for i (db v3)"
    using ct by (simp add: no_rows_for_def course_tables_def)
  from it ct nr tot att last
  show "\<exists>v3. scrape_iteration rem cfg (cur, c, v) = (None, (cur + 1, 0, v3))
           \<and> course_tables (db v3) = course_tables (db v)
           \<and> (\<forall>i. no_rows_for i (db v) \<longrightarrow> no_rows_for i (db v3))
           \<and> total_courses_scraped (scrape_metadata (db v3))
               = total_courses_scraped (scrape_metadata (db v))
           \<and> scrape_attempts (db v3) = (scrape_attempts (db v))
               (cur \<mapsto> \<lparr>status_code = 200, success = False\<rparr>)
           \<and> last_scraped_id (scrape_metadata (db v3)) = cur"
    by blast
qed

theorem atomic_save_witness:
  "fst (save_course (bad_payload 1) fresh_world)
     = Some (IntegrityError ''tees.tee_name'')
   \<and> courses (snd (save_course_body (bad_payload 1) (clock fresh_world) (db fresh_world))) 1 \<noteq> None
   \<and> length (holes (snd (save_course_body (bad_payload 1) (clock fresh_world) (db fresh_world)))) = 2
   \<and> snd (save_course (bad_payload 1) fresh_world) = fresh_world
   \<and> fst (scrape_iteration remote_bad small_config (1, 0, fresh_world)) = None
   \<and> fst (snd (scrape_iteration remote_bad small_config (1, 0, fresh_world))) = 2
   \<and> no_rows_for 1 (db (snd (snd (snd (scrape_iteration remote_bad small_config (1, 0, fresh_world))))))
   \<and> scrape_attempts (db (snd (snd (snd (scrape_iteration remote_bad small_config (1, 0, fresh_world)))))) 1
       = Some \<lparr>status_code = 200, success = False\<rparr>
   \<and> fst (save_course (huge_payload 1) fresh_world) = Some OverflowError
   \<and> tees (snd (save_course_body (huge_payload 1) (clock fresh_world) (db fresh_world))) \<noteq> []
   \<and> snd (save_course (huge_payload 1) fresh_world) = fresh_world
   \<and> fst (scrape_iteration remote_huge small_config (1, 0, fresh_world)) = None
   \<and> no_rows_for 1 (db (snd (snd (snd (scrape_iteration remote_huge small_config (1, 0, fresh_world))))))
   \<and> scrape_attempts (db (snd (snd (snd (scrape_iteration remote_huge small_config (1, 0, fresh_world)))))) 1
       = Some \<lparr>status_code = 200, success = False\<rparr>"
proof -
  let ?e = "IntegrityError ''tees.tee_name''"
  let ?sv = "save_course (bad_payload 1) fresh_world"
  let ?f = "fetch_course remote_bad 1 (await_rate_limit small_config fresh_world)"
  let ?it = "scrape_iteration remote_bad small_config (1, 0, fresh_world)"
  have s1: "fst ?sv = Some ?e" by code_simp
  then have s: "?sv = (Some ?e, snd ?sv)" by (metis prod.collapse)
  have p1: "courses (snd (save_course_body (bad_payload 1) (clock fresh_world) (db fresh_world))) 1 \<noteq> None"
    by code_simp
  have p2: "length (holes (snd (save_course_body (bad_payload 1) (clock fresh_world) (db fresh_world)))) = 2"
    by code_simp
  have na: "\<not> is_course_already_attempted 1 fresh_world" by code_simp
  have f1: "fst ?f = Inr (Some (bad_payload 1))" by code_simp
  then have f: "?f = (Inr (Some (bad_payload 1)), snd ?f)" by (metis prod.collapse)
  have tr: "truthy (Some (bad_payload 1))" by code_simp
  have sf: "fst (save_course (bad_payload 1) (snd ?f)) \<noteq> None" by code_simp
  have nr: "no_rows_for 1 (db fresh_world)" by code_simp
  note t = atomic_save[where cd = "bad_payload 1" and w = fresh_world and e = ?e and w' = "snd ?sv"
      and cur = 1 and v = fresh_world and rem = remote_bad and cfg = small_config
      and ?v2.0 = "snd ?f" and c = 0]
  from t s have r: "snd ?sv = fresh_world" by blast
  from t na f tr sf obtain v3 where v3: "?it = (None, (1 + 1, 0, v3))"
    "\<forall>i. no_rows_for i (db fresh_world) \<longrightarrow> no_rows_for i (db v3)"
    "scrape_attempts (db v3) = (scrape_attempts (db fresh_world))
               (1 \<mapsto> \<lparr>status_code = 200, success = False\<rparr>)"
    by blast
  from v3(1) have i: "fst ?it = None" "fst (snd ?it) = 2" "snd (snd (snd ?it)) = v3" by simp_all
  from v3(2) nr have n3: "no_rows_for 1 (db v3)" by blast
  from v3(3) have a3: "scrape_attempts (db v3) 1
       = Some \<lparr>status_code = 200, success = False\<rparr>" by simp
  let ?svh = "save_course (huge_payload 1) fresh_world"
  let ?fh = "fetch_course remote_huge 1 (await_rate_limit small_config fresh_world)"
  let ?ith = "scrape_iteration remote_huge small_config (1, 0, fresh_world)"
  have hs1: "fst ?svh = Some OverflowError" by code_simp
  then have hs: "?svh = (Some OverflowError, snd ?svh)" by (metis prod.collapse)
  have hp: "tees (snd (save_course_body (huge_payload 1) (clock fresh_world) (db fresh_world))) \<noteq> []"
    by code_simp
  have hf1: "fst ?fh = Inr (Some (huge_payload 1))" by code_simp
  then have hf: "?fh = (Inr (Some (huge_payload 1)), snd ?fh)" by (metis prod.collapse)
  have htr: "truthy (Some (huge_payload 1))" by code_simp
  have hsf: "fst (save_course (huge_payload 1) (snd ?fh)) \<noteq> None" by code_simp
  note th = atomic_save[where cd = "huge_payload 1" and w = fresh_world and e = OverflowError
      and w' = "snd ?svh" and cur = 1 and v = fresh_world and rem = remote_huge
      and cfg = small_config and ?v2.0 = "snd ?fh" and c = 0]
  from th hs have hr: "snd ?svh = fresh_world" by blast
  from th na hf htr hsf obtain v4 where v4: "?ith = (None, (1 + 1, 0, v4))"
    "\<forall>i. no_rows_for i (db fresh_world) \<longrightarrow> no_rows_for i (db v4)"
    "scrape_attempts (db v4) = (scrape_attempts (db fresh_world))
               (1 \<mapsto> \<lparr>status_code = 200, success = False\<rparr>)"
    by blast
  from v4(1) have j: "fst ?ith = None" "snd (snd (snd ?ith)) = v4" by simp_all
  from v4(2) nr have n4: "no_rows_for 1 (db v4)" by blast
  from v4(3) have a4: "scrape_attempts (db v4) 1
       = Some \<lparr>status_code = 200, success = False\<rparr>" by simp
  from s1 p1 p2 r i(1,2) n3 a3 hs1 hp hr j(1) n4 a4 show ?thesis unfolding i(3) j(2) by blast
qed

text \<open>
  Claim C6 as stated fails where the store already holds rows for the id of the payload:
  the rollback brings those rows back, so the store does not hold zero rows for that id.
\<close>

theorem atomic_save_counterexample:
  "fst (save_course (bad_payload 1) stored_world)
     = Some (IntegrityError ''tees.tee_name'')
   \<and> courses (db (snd (save_course (bad_payload 1) stored_world))) 1 \<noteq> None
   \<and> \<not> no_rows_for 1 (db (snd (save_course (bad_payload 1) stored_world)))"
  by code_simp

section \<open>A run of four ids\<close>

text \<open>
  Claim C7. On a new store with no earlier request, with a limit of more than three
  calls and of more than one consecutive 404, let ids 1 and 2 answer 200 and id 3 answer
  404, and let id 4 answer 429 once and then 200, the three payloads being well formed:
  an id other than 0, the names of the club and of the course not null, every tee named
  with at most 18 holes, and every integer within the signed 64-bit range, which are the
  payloads that \<^verbatim>\<open>save_course\<close> accepts. After the pass at id 4 (the loop is then about to go on to
  id 5) \<^verbatim>\<open>last_scraped_id\<close> is 4, \<^verbatim>\<open>consecutive_404s\<close> is 0,
  \<^verbatim>\<open>total_courses_scraped\<close> is 3, \<^verbatim>\<open>scrape_attempts\<close> has the four rows of ids 1 to
  4, and \<^verbatim>\<open>api_calls\<close> has five rows: one for each of ids 1 to 3 and two for id 4.
\<close>

theorem four_ids_scenario:
  assumes cfg: "3 < MAX_CALLS_PER_DAY cfg" "1 < CONSECUTIVE_404_LIMIT cfg"
    and r1: "rem 1 0 = Response 200 p1" "well_formed p1"
    and r2: "rem 2 0 = Response 200 p2" "well_formed p2"
    and r3: "rem 3 0 = Response 404 b3"
    and r4: "rem 4 0 = Response 429 b4" "rem 4 1 = Response 200 p4" "well_formed p4"
    and w0: "db w0 = fresh_tables t0" "requests w0 = []"
  shows "\<exists>w'. scrape 4 rem cfg w0 = (OutOfFuel, w')
           \<and> last_scraped_id (scrape_metadata (db w')) = 4
           \<and> consecutive_404s (scrape_metadata (db w')) = 0
           \<and> total_courses_scraped (scrape_metadata (db w')) = 3
           \<and> dom (scrape_attempts (db w')) = {1, 2, 3, 4}
           \<and> card (dom (scrape_attempts (db w'))) = 4
           \<and> length (api_calls (db w')) = 5
           \<and> requests w' = [4, 4, 3, 2, 1]"
proof -
  let ?K = "CONSECUTIVE_404_LIMIT cfg"
  have m0: "last_scraped_id (scrape_metadata (db w0)) = 0"
    "consecutive_404s (scrape_metadata (db w0)) = 0"
    "total_courses_scraped (scrape_metadata (db w0)) = 0"
    "\<not> scraping_complete (scrape_metadata (db w0))"
    "scrape_attempts (db w0) = Map.empty" "api_calls (db w0) = []"
    by (simp_all add: w0 fresh_tables_def)
  \<comment> \<open>the pass at id 1\<close>
  let ?a1 = "record_api_call (w0\<lparr>requests := 1 # requests w0\<rparr>)"
  have g1: "await_rate_limit cfg w0 = w0" using cfg(1) m0 by (intro limiter_open) simp
  have f1: "fetch_course rem 1 (await_rate_limit cfg w0) = (Inr (Some p1), ?a1)"
    unfolding g1 using r1(1) w0(2) by (intro fetch_course_200) simp
  have n1: "\<not> is_course_already_attempted 1 w0" by (simp add: is_course_already_attempted_def m0)
  from pass_with_payload[OF n1 f1 r1(2), of 0] obtain w1 where
    i1: "scrape_iteration rem cfg (1, 0, w0) = (None, (1 + 1, 0, w1))"
    and t1: "total_courses_scraped (scrape_metadata (db w1)) = 1"
    and a1: "scrape_attempts (db w1) = Map.empty
               (1 \<mapsto> \<lparr>status_code = 200, success = True\<rparr>)"
    and c1: "api_calls (db w1) = [clock w0]"
    and k1: "clock w1 = clock w0 + REQUEST_DELAY_SECONDS"
    and q1: "requests w1 = [1]"
    using m0 w0(2) by (auto simp: db_op_defs)
  \<comment> \<open>the pass at id 2\<close>
  let ?a2 = "record_api_call (w1\<lparr>requests := 2 # requests w1\<rparr>)"
  have g2: "await_rate_limit cfg w1 = w1" using cfg(1) c1 by (intro limiter_open) simp
  have f2: "fetch_course rem 2 (await_rate_limit cfg w1) = (Inr (Some p2), ?a2)"
    unfolding g2 using r2(1) q1 by (intro fetch_course_200) simp
  have n2: "\<not> is_course_already_attempted 2 w1" by (simp add: is_course_already_attempted_def a1)
  from pass_with_payload[OF n2 f2 r2(2), of 0] obtain w2 where
    i2: "scrape_iteration rem cfg (2, 0, w1) = (None, (2 + 1, 0, w2))"
    and t2: "total_courses_scraped (scrape_metadata (db w2)) = 2"
    and a2: "scrape_attempts (db w2) = (scrape_attempts (db w1))
               (2 \<mapsto> \<lparr>status_code = 200, success = True\<rparr>)"
    and c2: "api_calls (db w2) = [clock w1, clock w0]"
    and k2: "clock w2 = clock w1 + REQUEST_DELAY_SECONDS"
    and q2: "requests w2 = [2, 1]"
    using t1 c1 q1 by (auto simp: db_op_defs)
  \<comment> \<open>the pass at id 3\<close>
  let ?a3 = "record_api_call (w2\<lparr>requests := 3 # requests w2\<rparr>)"
  have g3: "await_rate_limit cfg w2 = w2" using cfg(1) c2 by (intro limiter_open) simp
  have f3: "fetch_course rem 3 (await_rate_limit cfg w2) = (Inr None, ?a3)"
    unfolding g3 using r3 q2 by (intro fetch_course_404[where b = b3]) simp
  have n3: "\<not> is_course_already_attempted 3 w2"
    by (simp add: is_course_already_attempted_def a2 a1)
  from pass_absent[OF n3 f3, of 0] obtain w3 where
    i3: "scrape_iteration rem cfg (3, 0, w2) = (None, (3 + 1, 0 + 1, w3))"
    and t3: "total_courses_scraped (scrape_metadata (db w3)) = 2"
    and a3: "scrape_attempts (db w3) = (scrape_attempts (db w2))
               (3 \<mapsto> \<lparr>status_code = 404, success = False\<rparr>)"
    and c3: "api_calls (db w3) = [clock w2, clock w1, clock w0]"
    and k3: "clock w3 = clock w2 + REQUEST_DELAY_SECONDS"
    and q3: "requests w3 = [3, 2, 1]"
    using t2 c2 q2 by (auto simp: db_op_defs)
  \<comment> \<open>the pass at id 4: throttled once, then found\<close>
  let ?a4 = "record_api_call ((sleep (seconds RATE_LIMIT_SLEEP_SECONDS)
         (record_api_call (w3\<lparr>requests := 4 # requests w3\<rparr>)))
           \<lparr>requests := 4 # 4 # requests w3\<rparr>)"
  have g4: "await_rate_limit cfg w3 = w3" using cfg(1) c3 by (intro limiter_open) simp
  have f4: "fetch_course rem 4 (await_rate_limit cfg w3) = (Inr (Some p4), ?a4)"
    unfolding g4 using r4(1,2) q3 by (intro fetch_course_429_200[where b = b4]) simp_all
  have n4: "\<not> is_course_already_attempted 4 w3"
    by (simp add: is_course_already_attempted_def a3 a2 a1)
  have nm4: "((4::int) + 1) mod 100 \<noteq> 0" by simp
  obtain w4 where
    i4: "scrape_iteration rem cfg (4, 1, w3) = (None, (4 + 1, 0, w4))"
    and l4: "last_scraped_id (scrape_metadata (db w4)) = 4"
    and z4: "consecutive_404s (scrape_metadata (db w4)) = 0"
    and t4': "total_courses_scraped (scrape_metadata (db w4))
           = total_courses_scraped (scrape_metadata (db ?a4)) + 1"
    and a4: "scrape_attempts (db w4) = (scrape_attempts (db ?a4))
               (4 \<mapsto> \<lparr>status_code = 200, success = True\<rparr>)"
    and c4': "api_calls (db w4) = api_calls (db ?a4)"
    and q4': "requests w4 = requests ?a4"
    by (rule pass_with_payload[OF n4 f4 r4(3) nm4, of 1]) blast
  have t4: "total_courses_scraped (scrape_metadata (db w4)) = 3"
    unfolding t4' using t3 by (simp add: db_op_defs)
  have c4: "length (api_calls (db w4)) = 5"
    unfolding c4' using c3 by (simp add: db_op_defs)
  have q4: "requests w4 = [4, 4, 3, 2, 1]"
    unfolding q4' using q3 by (simp add: db_op_defs)
  have a4'': "scrape_attempts (db ?a4) = scrape_attempts (db w3)" by (simp add: db_op_defs)
  have dom4: "dom (scrape_attempts (db w4)) = {1, 2, 3, 4}"
    unfolding a4 a4'' a3 a2 a1 by auto
  then have card4: "card (dom (scrape_attempts (db w4))) = 4" by simp
  have k: "0 < ?K" "1 < ?K" using cfg(2) by simp_all
  have i1': "scrape_iteration rem cfg (1, 0, w0) = (None, (2, 0, w1))" using i1 by simp
  have i2': "scrape_iteration rem cfg (2, 0, w1) = (None, (3, 0, w2))" using i2 by simp
  have i3': "scrape_iteration rem cfg (3, 0, w2) = (None, (4, 1, w3))" using i3 by simp
  have i4': "scrape_iteration rem cfg (4, 1, w3) = (None, (5, 0, w4))" using i4 by simp
  have four: "(4::nat) = Suc (Suc (Suc (Suc 0)))" by simp
  have "scrape_loop 4 rem cfg (1, 0, w0) = scrape_loop (Suc (Suc (Suc 0))) rem cfg (2, 0, w1)"
    unfolding four by (rule scrape_loop_pass[OF k(1) i1'])
  also have "\<dots> = scrape_loop (Suc (Suc 0)) rem cfg (3, 0, w2)"
    by (rule scrape_loop_pass[OF k(1) i2'])
  also have "\<dots> = scrape_loop (Suc 0) rem cfg (4, 1, w3)"
    by (rule scrape_loop_pass[OF k(1) i3'])
  also have "\<dots> = scrape_loop 0 rem cfg (5, 0, w4)"
    by (rule scrape_loop_pass[OF k(2) i4'])
  also have "\<dots> = (LoopOutOfFuel, (5, 0, w4))"
    by (rule scrape_loop_out_of_fuel[OF k(1)])
  finally have "scrape_loop 4 rem cfg (1, 0, w0) = (LoopOutOfFuel, (5, 0, w4))" .
  then have "scrape 4 rem cfg w0 = (OutOfFuel, w4)"
    using m0 by (simp add: scrape_def get_scrape_metadata_def del: scrape_loop.simps)
  with l4 z4 t4 dom4 card4 c4 q4 show ?thesis by blast
qed

theorem four_ids_scenario_witness:
  "fst (scrape 4 remote_scenario (default_config ''key'') fresh_world) = OutOfFuel
   \<and> (\<exists>w'. scrape 4 remote_scenario (default_config ''key'') fresh_world = (OutOfFuel, w')
           \<and> last_scraped_id (scrape_metadata (db w')) = 4
           \<and> consecutive_404s (scrape_metadata (db w')) = 0
           \<and> total_courses_scraped (scrape_metadata (db w')) = 3
           \<and> dom (scrape_attempts (db w')) = {1, 2, 3, 4}
           \<and> card (dom (scrape_attempts (db w'))) = 4
           \<and> length (api_calls (db w')) = 5
           \<and> requests w' = [4, 4, 3, 2, 1])"
proof -
  have c: "3 < MAX_CALLS_PER_DAY (default_config ''key'')"
    "1 < CONSECUTIVE_404_LIMIT (default_config ''key'')" by code_simp+
  have r: "remote_scenario 1 0 = Response 200 (good_payload 1)"
    "remote_scenario 2 0 = Response 200 (good_payload 2)"
    "remote_scenario 3 0 = Response 404 absent_body"
    "remote_scenario 4 0 = Response 429 absent_body"
    "remote_scenario 4 1 = Response 200 (good_payload 4)" by code_simp+
  have wf: "well_formed (good_payload 1)" "well_formed (good_payload 2)"
    "well_formed (good_payload 4)" by code_simp+
  have w: "db fresh_world = fresh_tables 0" "requests fresh_world = []"
    by (simp_all add: fresh_world_def)
  note s = four_ids_scenario[OF c r(1) wf(1) r(2) wf(2) r(3) r(4) r(5) wf(3) w]
  then have "fst (scrape 4 remote_scenario (default_config ''key'') fresh_world) = OutOfFuel"
    by auto
  with s show ?thesis by blast
qed

section \<open>The call ledger\<close>

text \<open>
  Claim C8, as amended. In a call of \<^verbatim>\<open>fetch_course\<close>, whatever its result, the rows
  added to \<^verbatim>\<open>api_calls\<close> are as many as the requests that the remote side answered
  with a response, of whatever status; a request that ends in a \<^verbatim>\<open>RequestException\<close>
  adds none, and neither does a sleep. A retry after a 429 is a new request and adds its
  own row.
\<close>

theorem call_ledger_counts_responses:
  "(fetch_course rem cid w = (r, w') \<longrightarrow>
      (\<exists>n new. n \<le> RETRY_MAX_ATTEMPTS
         \<and> requests w' = replicate n cid @ requests w
         \<and> api_calls (db w') = new @ api_calls (db w)
         \<and> length new = responded rem cid (count_list (requests w) cid) n))
   \<and> api_calls (db (sleep d w)) = api_calls (db w)
   \<and> requests (sleep d w) = requests w"
proof (intro conjI impI)
  assume "fetch_course rem cid w = (r, w')"
  from fetch_course_effect[OF this]
  show "\<exists>n new. n \<le> RETRY_MAX_ATTEMPTS
         \<and> requests w' = replicate n cid @ requests w
         \<and> api_calls (db w') = new @ api_calls (db w)
         \<and> length new = responded rem cid (count_list (requests w) cid) n"
    unfolding fetch_effect_def by blast
qed (simp_all add: sleep_def)

theorem call_ledger_counts_responses_witness:
  "requests (snd (fetch_course remote_flaky 4 fresh_world)) = [4, 4, 4]
   \<and> length (api_calls (db (snd (fetch_course remote_flaky 4 fresh_world)))) = 2
   \<and> responded remote_flaky 4 0 3 = 2
   \<and> (\<exists>n new. n \<le> RETRY_MAX_ATTEMPTS
         \<and> requests (snd (fetch_course remote_flaky 4 fresh_world)) = replicate n 4 @ requests fresh_world
         \<and> api_calls (db (snd (fetch_course remote_flaky 4 fresh_world))) = new @ api_calls (db fresh_world)
         \<and> length new = responded remote_flaky 4 (count_list (requests fresh_world) 4) n)"
proof -
  let ?f = "fetch_course remote_flaky 4 fresh_world"
  have a: "requests (snd ?f) = [4, 4, 4]" by code_simp
  have b: "length (api_calls (db (snd ?f))) = 2" by code_simp
  have c: "responded remote_flaky 4 0 3 = 2" by code_simp
  have p: "?f = (fst ?f, snd ?f)" by simp
  from call_ledger_counts_responses[of remote_flaky 4 fresh_world "fst ?f" "snd ?f"] p a b c
  show ?thesis by blast
qed

text \<open>
  Claim C8 as stated fails for the network exception: three requests that all end in a
  \<^verbatim>\<open>RequestException\<close> leave \<^verbatim>\<open>api_calls\<close> empty.
\<close>

theorem network_exception_not_recorded_counterexample:
  "requests (snd (fetch_course remote_down 1 fresh_world)) = [1, 1, 1]
   \<and> api_calls (db (snd (fetch_course remote_down 1 fresh_world))) = []"
  by code_simp

section \<open>The crawl position\<close>

text \<open>
  Claim C9. With the cursor above \<^verbatim>\<open>last_scraped_id\<close>, as it is when \<^verbatim>\<open>scrape\<close>
  starts the loop, a pass leaves \<^verbatim>\<open>last_scraped_id\<close> no smaller and below the new cursor;
  where it changes it becomes the cursor of that pass; \<^verbatim>\<open>scraping_complete\<close> is not
  changed by a pass. A call of \<^verbatim>\<open>scrape\<close>, however it ends, leaves
  \<^verbatim>\<open>last_scraped_id\<close> no smaller; on a store whose \<^verbatim>\<open>scraping_complete\<close> is set it
  does not run and the flag stays set.
\<close>

theorem crawl_position_monotone:
  "(scrape_iteration rem cfg (cur, c, w) = (x, (cur', c', w'))
      \<and> last_scraped_id (scrape_metadata (db w)) < cur \<longrightarrow>
        last_scraped_id (scrape_metadata (db w)) \<le> last_scraped_id (scrape_metadata (db w'))
        \<and> last_scraped_id (scrape_metadata (db w')) < cur'
        \<and> (last_scraped_id (scrape_metadata (db w')) \<noteq> last_scraped_id (scrape_metadata (db w)) \<longrightarrow>
             last_scraped_id (scrape_metadata (db w')) = cur)
        \<and> scraping_complete (scrape_metadata (db w')) = scraping_complete (scrape_metadata (db w)))
   \<and> (scrape fuel rem cfg v = (r, v') \<longrightarrow>
        last_scraped_id (scrape_metadata (db v)) \<le> last_scraped_id (scrape_metadata (db v'))
        \<and> (scraping_complete (scrape_metadata (db v)) \<longrightarrow>
              v' = v \<and> requests v' = requests v)
        \<and> (scraping_complete (scrape_metadata (db v)) \<longrightarrow>
              scraping_complete (scrape_metadata (db v'))))"
proof (intro conjI impI)
  assume a: "scrape_iteration rem cfg (cur, c, w) = (x, (cur', c', w'))
      \<and> last_scraped_id (scrape_metadata (db w)) < cur"
  then have it: "scrape_iteration rem cfg (cur, c, w) = (x, (cur', c', w'))"
    and lt: "last_scraped_id (scrape_metadata (db w)) < cur" by blast+
  note e = scrape_iteration_effect[OF it]
  from e(6) e(3) lt
  show "last_scraped_id (scrape_metadata (db w)) \<le> last_scraped_id (scrape_metadata (db w'))"
    and "last_scraped_id (scrape_metadata (db w')) < cur'" by auto
  from e(4) show "scraping_complete (scrape_metadata (db w')) = scraping_complete (scrape_metadata (db w))" .
  assume "last_scraped_id (scrape_metadata (db w')) \<noteq> last_scraped_id (scrape_metadata (db w))"
  with e(6) show "last_scraped_id (scrape_metadata (db w')) = cur" by auto
next
  assume s: "scrape fuel rem cfg v = (r, v')"
  from scrape_effect(2)[OF s]
  show "last_scraped_id (scrape_metadata (db v)) \<le> last_scraped_id (scrape_metadata (db v'))" .
  assume "scraping_complete (scrape_metadata (db v))"
  with s have "v' = v" by (simp add: scrape_def get_scrape_metadata_def)
  then show "v' = v" "requests v' = requests v"
    "scraping_complete (scrape_metadata (db v'))"
    using \<open>scraping_complete (scrape_metadata (db v))\<close> by simp_all
qed

theorem crawl_position_monotone_witness:
  "last_scraped_id (scrape_metadata (db fresh_world)) < 1
   \<and> last_scraped_id (scrape_metadata (db (snd (snd (snd
        (scrape_iteration remote_404 small_config (1, 0, fresh_world))))))) = 1
   \<and> last_scraped_id (scrape_metadata (db (snd (snd (snd
        (scrape_iteration remote_404 small_config (1, 0, fresh_world)))))))
        < fst (snd (scrape_iteration remote_404 small_config (1, 0, fresh_world)))
   \<and> last_scraped_id (scrape_metadata (db fresh_world))
        \<le> last_scraped_id (scrape_metadata (db (snd (scrape 5 remote_404 small_config fresh_world))))"
proof -
  let ?it = "scrape_iteration remote_404 small_config (1, 0, fresh_world)"
  let ?s = "scrape 5 remote_404 small_config fresh_world"
  have p: "?it = (fst ?it, (fst (snd ?it), fst (snd (snd ?it)), snd (snd (snd ?it))))" by simp
  have q: "?s = (fst ?s, snd ?s)" by simp
  have lt: "last_scraped_id (scrape_metadata (db fresh_world)) < 1" by code_simp
  have val: "last_scraped_id (scrape_metadata (db (snd (snd (snd ?it))))) = 1" by code_simp
  from crawl_position_monotone[of remote_404 small_config 1 0 fresh_world
      "fst ?it" "fst (snd ?it)" "fst (snd (snd ?it))" "snd (snd (snd ?it))"
      5 fresh_world "fst ?s" "snd ?s"] p q lt val
  show ?thesis by blast
qed

section \<open>The progress row\<close>



end
